theory Spec2Isabelle
  imports Complex_Main "HOL-Library.Char_ord" "HOL-Library.List_Lexorder" "HOL-Library.Multiset"
begin

section \<open>BoM radar proxy: retrieval-and-freshness cache\<close>

text \<open>
  A shallow embedding of the caching core of the radar proxy: \<^verbatim>\<open>getRadarImage\<close>,
  \<^verbatim>\<open>downloadFromFTP\<close>, \<^verbatim>\<open>listAvailableTimestamps\<close> with its rate limiter,
  \<^verbatim>\<open>cleanupCache\<close> and \<^verbatim>\<open>checkCacheSize\<close> of the resolution-aware server
  \<^verbatim>\<open>src/src/server.js\<close>, and \<^verbatim>\<open>getRadarImage\<close> of the standalone server
  \<^verbatim>\<open>src/server.js\<close>.

  Conventions of the model.
  \<^item> Wall-clock instants (\<^verbatim>\<open>Date.now()\<close>, \<^verbatim>\<open>stats.mtimeMs\<close>) are integers, in
    milliseconds. One call reads the clock once: the several \<^verbatim>\<open>Date.now()\<close> of one
    call are the same instant \<open>now\<close>.
  \<^item> JavaScript numbers are exact rationals: an age is \<open>(now - t) / 1000\<close> as the code
    writes it. For integers below \<open>2^53\<close> the comparisons of the code give the same
    answer in double precision.
  \<^item> The cache directory is the list of its entries, in the order \<^verbatim>\<open>fs.readdir\<close>
    reports them; a path \<^verbatim>\<open>path.join(CACHE_DIR, file)\<close> is represented by
    \<open>file\<close>.
  \<^item> A rejected promise or a thrown exception is a value \<open>Inl e\<close> or \<open>None\<close>.
  \<^item> File operations may fail: \<open>flt op p\<close> says that operation \<open>op\<close> on
    path \<open>p\<close> raises.
\<close>

subsection \<open>Configuration\<close>

text \<open>
  \<^verbatim>\<open>parseInt(process.env.X) || d\<close>: an unset or unparsable variable (\<open>None\<close>) and
  the value \<open>0\<close> are both falsy and give the default.
\<close>

definition env_or :: "int option \<Rightarrow> int \<Rightarrow> int" where
  "env_or v d = (case v of None \<Rightarrow> d | Some n \<Rightarrow> if n = 0 then d else n)"

record config =
  TIMESTAMP_REFRESH_INTERVAL :: int
  DISK_CACHE_TTL :: int
  MAX_CACHE_SIZE_MB :: int

definition load_config :: "int option \<Rightarrow> int option \<Rightarrow> int option \<Rightarrow> config" where
  "load_config refresh ttl_hours max_mb =
     \<lparr> TIMESTAMP_REFRESH_INTERVAL = env_or refresh 600 * 1000,
       DISK_CACHE_TTL = env_or ttl_hours 24 * 3600,
       MAX_CACHE_SIZE_MB = env_or max_mb 1000 \<rparr>"

definition default_config :: config where
  "default_config = load_config None None None"

definition CURRENT_IMAGE_REFRESH_INTERVAL :: int where
  "CURRENT_IMAGE_REFRESH_INTERVAL = 600000"

definition CURRENT_IMAGE_THRESHOLD :: int where
  "CURRENT_IMAGE_THRESHOLD = 1800"

definition FTP_PATH :: string where
  "FTP_PATH = ''/anon/gen/radar/''"

definition RESOLUTION_SUFFIX :: "nat \<Rightarrow> string option" where
  "RESOLUTION_SUFFIX r =
     (if r = 64 then Some ''1'' else if r = 128 then Some ''2''
      else if r = 256 then Some ''3'' else if r = 512 then Some ''4'' else None)"

definition SUPPORTED_RESOLUTIONS :: "nat list" where
  "SUPPORTED_RESOLUTIONS = [64, 128, 256]"

subsection \<open>Errors\<close>

datatype error =
    UnsupportedResolution nat
  | InvalidResolution nat
  | FtpTimeout
  | FtpError nat
  | FsError
  | RateLimit int string

subsection \<open>Decimal rendering of numbers in template strings\<close>

definition digit_char :: "nat \<Rightarrow> char" where
  "digit_char d = char_of (48 + d)"

fun dec :: "nat \<Rightarrow> string" where
  "dec n = (if n < 10 then [digit_char n] else dec (n div 10) @ [digit_char (n mod 10)])"

declare dec.simps [simp del]

subsection \<open>Timestamps\<close>

text \<open>
  \<^verbatim>\<open>parseTimestamp\<close> cuts the twelve digits \<^verbatim>\<open>YYYYMMDDhhmm\<close> into five numbers and
  hands them to the built-in \<^verbatim>\<open>new Date(year, month, day, hour, minute)\<close>, which reads
  them in the server's time zone. The constructor is a parameter \<open>mk\<close> of the
  model, giving \<^verbatim>\<open>getTime()\<close> of the date in milliseconds. The route handlers admit
  only strings of twelve digits, for which \<^verbatim>\<open>parseInt\<close> is the decimal value.
\<close>

type_synonym mkdate = "int \<Rightarrow> int \<Rightarrow> int \<Rightarrow> int \<Rightarrow> int \<Rightarrow> int"

definition digit_val :: "char \<Rightarrow> int" where
  "digit_val c = int (of_char c) - 48"

definition parseInt :: "string \<Rightarrow> int" where
  "parseInt s = foldl (\<lambda>a c. 10 * a + digit_val c) 0 s"

definition substring :: "string \<Rightarrow> nat \<Rightarrow> nat \<Rightarrow> string" where
  "substring s i j = take (j - i) (drop i s)"

definition parseTimestamp :: "mkdate \<Rightarrow> string \<Rightarrow> int" where
  "parseTimestamp mk timestamp =
     (let year = parseInt (substring timestamp 0 4);
          month = parseInt (substring timestamp 4 6) - 1;
          day = parseInt (substring timestamp 6 8);
          hour = parseInt (substring timestamp 8 10);
          minute = parseInt (substring timestamp 10 12)
      in mk year month day hour minute)"

text \<open>
  The date constructor for a server whose time zone is UTC. \<open>days_from_civil\<close> counts
  the days from 1970-01-01 to a date of the proleptic Gregorian calendar, for a month
  from 1 to 12. As the built-in does, \<open>utcDate\<close> reads a year from 0 to 99 as
  1900 plus that year, counts \<open>month\<close> from \<open>0\<close> and carries months outside
  0 to 11 into the year, and adds the day of the month, the hour and the minute as
  offsets, so that fields beyond their calendar ranges roll over.
\<close>

definition days_from_civil :: "int \<Rightarrow> int \<Rightarrow> int \<Rightarrow> int" where
  "days_from_civil y m d =
     (let y' = (if m \<le> 2 then y - 1 else y);
          era = y' div 400;
          yoe = y' - era * 400;
          mp = (m + 9) mod 12;
          doy = (153 * mp + 2) div 5 + d - 1;
          doe = yoe * 365 + yoe div 4 - yoe div 100 + doy
      in era * 146097 + doe - 719468)"

definition utcDate :: mkdate where
  "utcDate year month day hour minute =
     (let yr = (if 0 \<le> year \<and> year \<le> 99 then 1900 + year else year);
          ym = yr + month div 12;
          mn = month mod 12;
          days = days_from_civil ym (mn + 1) 1 + (day - 1)
      in ((days * 24 + hour) * 60 + minute) * 60000)"

subsection \<open>The cache directory\<close>

type_synonym buffer = string

record disk_file =
  mtimeMs :: int
  content :: buffer

type_synonym dir = "(string \<times> disk_file) list"

datatype fsop = Readdir | Stat | Unlink | ReadFile | WriteFile | TornWrite nat

type_synonym faults = "fsop \<Rightarrow> string \<Rightarrow> bool"

definition no_faults :: faults where
  "no_faults = (\<lambda>_ _. False)"

definition fs_readdir :: "faults \<Rightarrow> dir \<Rightarrow> string list option" where
  "fs_readdir flt d = (if flt Readdir [] then None else Some (map fst d))"

definition fs_stat :: "faults \<Rightarrow> dir \<Rightarrow> string \<Rightarrow> disk_file option" where
  "fs_stat flt d p = (if flt Stat p then None else map_of d p)"

definition remove_file :: "string \<Rightarrow> dir \<Rightarrow> dir" where
  "remove_file p d = filter (\<lambda>e. fst e \<noteq> p) d"

definition fs_unlink :: "faults \<Rightarrow> dir \<Rightarrow> string \<Rightarrow> dir option" where
  "fs_unlink flt d p =
     (if flt Unlink p \<or> map_of d p = None then None else Some (remove_file p d))"

definition fs_readFile :: "faults \<Rightarrow> dir \<Rightarrow> string \<Rightarrow> buffer option" where
  "fs_readFile flt d p =
     (if flt ReadFile p then None else map_option content (map_of d p))"

text \<open>
  \<^verbatim>\<open>fs.writeFile\<close> opens the file, which creates or truncates it, and then writes the
  buffer: it replaces the content of an existing entry in place and creates a missing
  one, and the new modification time is the instant of the call. It is not atomic. A
  write that raises (\<open>flt WriteFile p\<close>) raises either at the open, and the directory
  is as before, or after the first \<open>n\<close> bytes have reached the file
  (\<open>flt (TornWrite n) p\<close>, for the least such \<open>n\<close> below the length of the buffer),
  and the entry holds those bytes only.
\<close>

datatype write_result = Written dir | WriteFailed dir

fun put_file :: "string \<Rightarrow> disk_file \<Rightarrow> dir \<Rightarrow> dir" where
  "put_file p f [] = [(p, f)]"
| "put_file p f (e # d) = (if fst e = p then (p, f) # d else e # put_file p f d)"

definition fs_writeFile :: "faults \<Rightarrow> int \<Rightarrow> dir \<Rightarrow> string \<Rightarrow> buffer \<Rightarrow> write_result" where
  "fs_writeFile flt now d p buf =
     (if flt WriteFile p then
        (case find (\<lambda>n. flt (TornWrite n) p) [0..<length buf] of
           None \<Rightarrow> WriteFailed d
         | Some n \<Rightarrow> WriteFailed (put_file p \<lparr> mtimeMs = now, content = take n buf \<rparr> d))
      else Written (put_file p \<lparr> mtimeMs = now, content = buf \<rparr> d))"

definition endsWith :: "string \<Rightarrow> string \<Rightarrow> bool" where
  "endsWith s suffix = (length suffix \<le> length s \<and> drop (length s - length suffix) s = suffix)"

subsection \<open>The remote origin\<close>

text \<open>
  A transfer is the sequence of events of the FTP stream: chunks of data, closed by
  \<^verbatim>\<open>end\<close> or by \<^verbatim>\<open>error\<close>.
\<close>

datatype stream = Chunk buffer stream | End | StreamError error

record entry =
  etype :: char
  name :: string

record remote =
  connectFTP :: "error option"
  ftp_get :: "string \<Rightarrow> error + stream"
  ftp_list :: "string \<Rightarrow> error + entry list"

definition buildRadarUrl :: "string \<Rightarrow> string \<Rightarrow> nat \<Rightarrow> error + string \<times> string" where
  "buildRadarUrl radarId timestamp resolution =
     (case RESOLUTION_SUFFIX resolution of
        None \<Rightarrow> Inl (InvalidResolution resolution)
      | Some suffix \<Rightarrow>
          (let filename = radarId @ suffix @ ''.T.'' @ timestamp @ ''.png'';
               remotePath = FTP_PATH @ filename
           in Inr (filename, remotePath)))"

text \<open>
  The handlers of \<^verbatim>\<open>downloadFromFTP\<close>: \<^verbatim>\<open>data\<close> pushes the chunk, \<^verbatim>\<open>end\<close>
  resolves with the concatenation of all chunks, \<^verbatim>\<open>error\<close> rejects.
\<close>

fun receive :: "buffer list \<Rightarrow> stream \<Rightarrow> error + buffer" where
  "receive chunks (Chunk c s) = receive (chunks @ [c]) s"
| "receive chunks End = Inr (concat chunks)"
| "receive chunks (StreamError e) = Inl e"

text \<open>
  What a transfer delivered: the chunks it sent, in order, and how it closed
  (\<open>None\<close> for \<^verbatim>\<open>end\<close>, the error otherwise).
\<close>

fun stream_chunks :: "stream \<Rightarrow> buffer list" where
  "stream_chunks (Chunk c s) = c # stream_chunks s"
| "stream_chunks End = []"
| "stream_chunks (StreamError e) = []"

fun stream_end :: "stream \<Rightarrow> error option" where
  "stream_end (Chunk c s) = stream_end s"
| "stream_end End = None"
| "stream_end (StreamError e) = Some e"

definition downloadFromFTP :: "remote \<Rightarrow> string \<Rightarrow> string \<Rightarrow> nat \<Rightarrow> error + buffer" where
  "downloadFromFTP r radarId timestamp resolution =
     (case connectFTP r of
        Some e \<Rightarrow> Inl e
      | None \<Rightarrow>
          (case buildRadarUrl radarId timestamp resolution of
             Inl e \<Rightarrow> Inl e
           | Inr (filename, remotePath) \<Rightarrow>
               (case ftp_get r remotePath of
                  Inl e \<Rightarrow> Inl e
                | Inr s \<Rightarrow> receive [] s)))"

subsection \<open>\<^verbatim>\<open>getRadarImage\<close> of the resolution-aware server\<close>

record image_result =
  buffer :: buffer
  fromCache :: bool
  cacheAge :: int
  imageAge :: int

record image_result_res = image_result +
  resolution :: nat

datatype lookup = Hit image_result_res | Miss dir

text \<open>
  The outcome of one call: what the caller receives, the cache directory afterwards,
  how many times \<^verbatim>\<open>downloadFromFTP\<close> was called, and whether \<^verbatim>\<open>checkCacheSize()\<close>
  was started (it is not awaited, so its deletions are no part of the call).
\<close>

record get_outcome =
  reply :: "error + image_result_res"
  disk :: dir
  downloads :: nat
  sizeCheck :: bool

definition age :: "int \<Rightarrow> int \<Rightarrow> rat" where
  "age now t = of_int (now - t) / 1000"

definition cacheFile :: "string \<Rightarrow> string \<Rightarrow> nat \<Rightarrow> string" where
  "cacheFile radarId timestamp res =
     (let cacheKey = radarId @ ''_'' @ timestamp @ ''_'' @ dec res
      in cacheKey @ ''.png'')"

text \<open>
  The first \<^verbatim>\<open>try\<close> block: any exception inside it (a failed \<^verbatim>\<open>stat\<close>,
  \<^verbatim>\<open>unlink\<close> or \<^verbatim>\<open>readFile\<close>) is caught and the call continues with the
  download.
\<close>

definition lookupCache ::
  "config \<Rightarrow> faults \<Rightarrow> int \<Rightarrow> dir \<Rightarrow> string \<Rightarrow> rat \<Rightarrow> nat \<Rightarrow> lookup" where
  "lookupCache cfg flt now d cachePath imgAge res =
     (let isCurrent = imgAge < of_int CURRENT_IMAGE_THRESHOLD in
      case fs_stat flt d cachePath of
        None \<Rightarrow> Miss d
      | Some stats \<Rightarrow>
          (let fileCacheAge = age now (mtimeMs stats) in
           if fileCacheAge \<ge> of_int (DISK_CACHE_TTL cfg) then
             (case fs_unlink flt d cachePath of None \<Rightarrow> Miss d | Some d' \<Rightarrow> Miss d')
           else if \<not> isCurrent \<or> imgAge < of_int CURRENT_IMAGE_REFRESH_INTERVAL / 1000 then
             (case fs_readFile flt d cachePath of
                None \<Rightarrow> Miss d
              | Some b \<Rightarrow>
                  Hit \<lparr> buffer = b, fromCache = True, cacheAge = \<lfloor>fileCacheAge\<rfloor>,
                        imageAge = \<lfloor>imgAge\<rfloor>, resolution = res \<rparr>)
           else
             (case fs_unlink flt d cachePath of None \<Rightarrow> Miss d | Some d' \<Rightarrow> Miss d')))"

text \<open>The second \<^verbatim>\<open>try\<close> block: download, then write, then return.\<close>

definition fetchAndStore ::
  "faults \<Rightarrow> remote \<Rightarrow> int \<Rightarrow> dir \<Rightarrow> string \<Rightarrow> string \<Rightarrow> nat \<Rightarrow> string \<Rightarrow> rat \<Rightarrow> get_outcome" where
  "fetchAndStore flt r now d radarId timestamp res cachePath imgAge =
     (case downloadFromFTP r radarId timestamp res of
        Inl e \<Rightarrow> \<lparr> reply = Inl e, disk = d, downloads = 1, sizeCheck = False \<rparr>
      | Inr buf \<Rightarrow>
          (case fs_writeFile flt now d cachePath buf of
             WriteFailed d' \<Rightarrow>
               \<lparr> reply = Inl FsError, disk = d', downloads = 1, sizeCheck = False \<rparr>
           | Written d' \<Rightarrow>
               \<lparr> reply = Inr \<lparr> buffer = buf, fromCache = False, cacheAge = 0,
                                imageAge = \<lfloor>imgAge\<rfloor>, resolution = res \<rparr>,
                 disk = d', downloads = 1, sizeCheck = True \<rparr>))"

definition getRadarImage ::
  "config \<Rightarrow> mkdate \<Rightarrow> faults \<Rightarrow> remote \<Rightarrow> int \<Rightarrow> string \<Rightarrow> string \<Rightarrow> nat \<Rightarrow> dir \<Rightarrow> get_outcome" where
  "getRadarImage cfg mk flt r now radarId timestamp res d =
     (if res \<notin> set SUPPORTED_RESOLUTIONS then
        \<lparr> reply = Inl (UnsupportedResolution res), disk = d, downloads = 0, sizeCheck = False \<rparr>
      else
        (let cachePath = cacheFile radarId timestamp res;
             timestampDate = parseTimestamp mk timestamp;
             imgAge = age now timestampDate
         in case lookupCache cfg flt now d cachePath imgAge res of
              Hit result \<Rightarrow> \<lparr> reply = Inr result, disk = d, downloads = 0, sizeCheck = False \<rparr>
            | Miss d' \<Rightarrow> fetchAndStore flt r now d' radarId timestamp res cachePath imgAge))"

subsection \<open>\<^verbatim>\<open>getRadarImage\<close> of the standalone server\<close>

text \<open>
  \<^verbatim>\<open>src/server.js\<close> has no resolutions, a fixed time to live, and tests the age of the
  file where the resolution-aware server tests the age of the timestamp.
\<close>

definition DISK_CACHE_TTL_standalone :: int where
  "DISK_CACHE_TTL_standalone = 3600 * 24"

record get_outcome_standalone =
  reply_s :: "error + image_result"
  disk_s :: dir
  downloads_s :: nat

definition downloadFromFTP_standalone :: "remote \<Rightarrow> string \<Rightarrow> string \<Rightarrow> error + buffer" where
  "downloadFromFTP_standalone r radarId timestamp =
     (case connectFTP r of
        Some e \<Rightarrow> Inl e
      | None \<Rightarrow>
          (let filename = radarId @ ''.T.'' @ timestamp @ ''.png'';
               remotePath = FTP_PATH @ filename
           in case ftp_get r remotePath of
                Inl e \<Rightarrow> Inl e
              | Inr s \<Rightarrow> receive [] s))"

definition fetchAndStore_standalone ::
  "mkdate \<Rightarrow> faults \<Rightarrow> remote \<Rightarrow> int \<Rightarrow> dir \<Rightarrow> string \<Rightarrow> string \<Rightarrow> string \<Rightarrow> get_outcome_standalone" where
  "fetchAndStore_standalone mk flt r now d radarId timestamp cachePath =
     (case downloadFromFTP_standalone r radarId timestamp of
        Inl e \<Rightarrow> \<lparr> reply_s = Inl e, disk_s = d, downloads_s = 1 \<rparr>
      | Inr buf \<Rightarrow>
          (case fs_writeFile flt now d cachePath buf of
             WriteFailed d' \<Rightarrow> \<lparr> reply_s = Inl FsError, disk_s = d', downloads_s = 1 \<rparr>
           | Written d' \<Rightarrow>
               (let imgAge = age now (parseTimestamp mk timestamp)
                in \<lparr> reply_s = Inr \<lparr> buffer = buf, fromCache = False, cacheAge = 0,
                                       imageAge = \<lfloor>imgAge\<rfloor> \<rparr>,
                     disk_s = d', downloads_s = 1 \<rparr>)))"

definition getRadarImage_standalone ::
  "mkdate \<Rightarrow> faults \<Rightarrow> remote \<Rightarrow> int \<Rightarrow> string \<Rightarrow> string \<Rightarrow> dir \<Rightarrow> get_outcome_standalone" where
  "getRadarImage_standalone mk flt r now radarId timestamp d =
     (let cacheKey = radarId @ ''_'' @ timestamp;
          cachePath = cacheKey @ ''.png'';
          miss = (\<lambda>d'. fetchAndStore_standalone mk flt r now d' radarId timestamp cachePath)
      in case fs_stat flt d cachePath of
           None \<Rightarrow> miss d
         | Some stats \<Rightarrow>
             (let cacheAge = age now (mtimeMs stats) in
              if cacheAge \<ge> of_int DISK_CACHE_TTL_standalone then
                (case fs_unlink flt d cachePath of None \<Rightarrow> miss d | Some d' \<Rightarrow> miss d')
              else
                (let imgAge = age now (parseTimestamp mk timestamp);
                     isCurrent = imgAge < of_int CURRENT_IMAGE_THRESHOLD
                 in if \<not> isCurrent \<or> cacheAge < of_int CURRENT_IMAGE_REFRESH_INTERVAL / 1000 then
                      (case fs_readFile flt d cachePath of
                         None \<Rightarrow> miss d
                       | Some b \<Rightarrow>
                           \<lparr> reply_s = Inr \<lparr> buffer = b, fromCache = True,
                                              cacheAge = \<lfloor>cacheAge\<rfloor>, imageAge = \<lfloor>imgAge\<rfloor> \<rparr>,
                             disk_s = d, downloads_s = 0 \<rparr>)
                    else
                      (case fs_unlink flt d cachePath of None \<Rightarrow> miss d | Some d' \<Rightarrow> miss d'))))"

subsection \<open>The evictor\<close>

record file_stat =
  path :: string
  fsize :: nat
  mtime :: int

text \<open>
  The loop of \<^verbatim>\<open>cleanupCache\<close>. The whole loop sits in one \<^verbatim>\<open>try\<close>: a
  \<^verbatim>\<open>stat\<close> or \<^verbatim>\<open>unlink\<close> that raises ends the sweep, with the deletions made so
  far.
\<close>

fun expire :: "config \<Rightarrow> faults \<Rightarrow> int \<Rightarrow> string list \<Rightarrow> dir \<Rightarrow> dir" where
  "expire cfg flt now [] d = d"
| "expire cfg flt now (file # files) d =
     (if \<not> endsWith file ''.png'' then expire cfg flt now files d
      else case fs_stat flt d file of
             None \<Rightarrow> d
           | Some stats \<Rightarrow>
               (let fileAge = age now (mtimeMs stats) in
                if fileAge > of_int (DISK_CACHE_TTL cfg) then
                  (case fs_unlink flt d file of
                     None \<Rightarrow> d
                   | Some d' \<Rightarrow> expire cfg flt now files d')
                else expire cfg flt now files d))"

definition cleanupCache :: "config \<Rightarrow> faults \<Rightarrow> int \<Rightarrow> dir \<Rightarrow> dir" where
  "cleanupCache cfg flt now d =
     (case fs_readdir flt d of
        None \<Rightarrow> d
      | Some files \<Rightarrow> expire cfg flt now files d)"

text \<open>The first loop of \<^verbatim>\<open>checkCacheSize\<close>: sizes and modification times.\<close>

fun statAll ::
  "faults \<Rightarrow> dir \<Rightarrow> string list \<Rightarrow> nat \<Rightarrow> file_stat list \<Rightarrow> (nat \<times> file_stat list) option" where
  "statAll flt d [] totalSize fileStats = Some (totalSize, fileStats)"
| "statAll flt d (file # files) totalSize fileStats =
     (if \<not> endsWith file ''.png'' then statAll flt d files totalSize fileStats
      else case fs_stat flt d file of
             None \<Rightarrow> None
           | Some stats \<Rightarrow>
               statAll flt d files (totalSize + length (content stats))
                 (fileStats @ [\<lparr> path = file, fsize = length (content stats),
                                 mtime = mtimeMs stats \<rparr>]))"

text \<open>The second loop: delete in the sorted order until the target is reached.\<close>

fun evict :: "faults \<Rightarrow> rat \<Rightarrow> nat \<Rightarrow> nat \<Rightarrow> file_stat list \<Rightarrow> dir \<Rightarrow> dir" where
  "evict flt targetSize totalSize freedSpace [] d = d"
| "evict flt targetSize totalSize freedSpace (file # files) d =
     (if of_nat totalSize - of_nat freedSpace \<le> targetSize then d
      else case fs_unlink flt d (path file) of
             None \<Rightarrow> d
           | Some d' \<Rightarrow> evict flt targetSize totalSize (freedSpace + fsize file) files d')"

text \<open>
  \<^verbatim>\<open>Array.prototype.sort\<close> with the comparator \<^verbatim>\<open>a.mtime - b.mtime\<close> is a stable
  sort by modification time; the factor \<^verbatim>\<open>0.8\<close> is the rational \<open>8/10\<close>.
\<close>

definition targetSize_of :: "config \<Rightarrow> rat" where
  "targetSize_of cfg = of_int (MAX_CACHE_SIZE_MB cfg) * (8 / 10) * 1024 * 1024"

definition checkCacheSize :: "config \<Rightarrow> faults \<Rightarrow> dir \<Rightarrow> dir" where
  "checkCacheSize cfg flt d =
     (case fs_readdir flt d of
        None \<Rightarrow> d
      | Some files \<Rightarrow>
          (case statAll flt d files 0 [] of
             None \<Rightarrow> d
           | Some (totalSize, fileStats) \<Rightarrow>
               (let totalSizeMB = (of_nat totalSize :: rat) / 1024 / 1024 in
                if totalSizeMB > of_int (MAX_CACHE_SIZE_MB cfg) then
                  evict flt (targetSize_of cfg) totalSize 0 (sort_key mtime fileStats) d
                else d)))"

subsection \<open>Calls in sequence\<close>

text \<open>
  A call, and then the size sweep that the call started, if it started one, run to its
  end before anything else touches the cache directory. The sweeps that the timers
  start are no part of it.
\<close>

definition getAndSweep ::
  "config \<Rightarrow> mkdate \<Rightarrow> faults \<Rightarrow> remote \<Rightarrow> int \<Rightarrow> string \<Rightarrow> string \<Rightarrow> nat \<Rightarrow> dir \<Rightarrow> get_outcome \<times> dir" where
  "getAndSweep cfg mk flt r now radarId timestamp res d =
     (let out = getRadarImage cfg mk flt r now radarId timestamp res d
      in (out, if sizeCheck out then checkCacheSize cfg flt (disk out) else disk out))"

text \<open>
  A reader asking for the same key at the instants \<open>ts\<close>, one call after the other,
  each followed by the sweep it started.
\<close>

fun serve ::
  "config \<Rightarrow> mkdate \<Rightarrow> faults \<Rightarrow> remote \<Rightarrow> string \<Rightarrow> string \<Rightarrow> nat \<Rightarrow> int list \<Rightarrow> dir \<Rightarrow> get_outcome list" where
  "serve cfg mk flt r radarId timestamp res [] d = []"
| "serve cfg mk flt r radarId timestamp res (t # ts) d =
     (let step = getAndSweep cfg mk flt r t radarId timestamp res d
      in fst step # serve cfg mk flt r radarId timestamp res ts (snd step))"

subsection \<open>The metadata cache and the refresh rate limiter\<close>

text \<open>
  \<^verbatim>\<open>metaCache\<close> is a \<^verbatim>\<open>NodeCache\<close> with \<^verbatim>\<open>stdTTL = TIMESTAMP_REFRESH_INTERVAL / 1000\<close>
  seconds: \<^verbatim>\<open>set\<close> stores the value with the instant at which it expires (\<open>0\<close>,
  never, when \<^verbatim>\<open>stdTTL\<close> is \<open>0\<close>), and \<^verbatim>\<open>get\<close> answers \<^verbatim>\<open>undefined\<close> for a
  missing key and for an entry whose instant is before now. \<^verbatim>\<open>lastTimestampRefresh\<close> is a
  \<^verbatim>\<open>Map\<close> from radar id to the instant of the last listing.
\<close>

record meta =
  metaCache :: "string \<Rightarrow> (string list \<times> int) option"
  lastTimestampRefresh :: "string \<Rightarrow> int option"

definition empty_meta :: meta where
  "empty_meta = \<lparr> metaCache = (\<lambda>_. None), lastTimestampRefresh = (\<lambda>_. None) \<rparr>"

definition nc_get :: "meta \<Rightarrow> int \<Rightarrow> string \<Rightarrow> string list option" where
  "nc_get st now key =
     (case metaCache st key of
        None \<Rightarrow> None
      | Some (v, t) \<Rightarrow> if t \<noteq> 0 \<and> t < now then None else Some v)"

definition nc_set :: "config \<Rightarrow> meta \<Rightarrow> int \<Rightarrow> string \<Rightarrow> string list \<Rightarrow> meta" where
  "nc_set cfg st now key v =
     (let livetime = (if TIMESTAMP_REFRESH_INTERVAL cfg = 0 then 0
                      else now + TIMESTAMP_REFRESH_INTERVAL cfg)
      in st\<lparr> metaCache := (metaCache st)(key \<mapsto> (v, livetime)) \<rparr>)"

text \<open>\<^verbatim>\<open>!lastRefresh\<close> holds for a missing entry and for the number \<open>0\<close>.\<close>

definition canRefreshTimestamps :: "config \<Rightarrow> meta \<Rightarrow> int \<Rightarrow> string \<Rightarrow> bool" where
  "canRefreshTimestamps cfg st now radarId =
     (case lastTimestampRefresh st radarId of
        None \<Rightarrow> True
      | Some lastRefresh \<Rightarrow>
          if lastRefresh = 0 then True
          else (let timeSinceLastRefresh = now - lastRefresh
                in timeSinceLastRefresh \<ge> TIMESTAMP_REFRESH_INTERVAL cfg))"

definition updateTimestampRefreshTime :: "meta \<Rightarrow> int \<Rightarrow> string \<Rightarrow> meta" where
  "updateTimestampRefreshTime st now radarId =
     st\<lparr> lastTimestampRefresh := (lastTimestampRefresh st)(radarId \<mapsto> now) \<rparr>"

definition getTimeUntilNextRefresh :: "config \<Rightarrow> meta \<Rightarrow> int \<Rightarrow> string \<Rightarrow> int" where
  "getTimeUntilNextRefresh cfg st now radarId =
     (case lastTimestampRefresh st radarId of
        None \<Rightarrow> 0
      | Some lastRefresh \<Rightarrow>
          if lastRefresh = 0 then 0
          else (let timeSinceLastRefresh = now - lastRefresh;
                    timeRemaining = TIMESTAMP_REFRESH_INTERVAL cfg - timeSinceLastRefresh
                in max 0 \<lceil>(of_int timeRemaining :: rat) / 1000\<rceil>))"

text \<open>
  The pattern \<^verbatim>\<open>^${radarId}${suffix}\.T\.(\d{12})\.png$\<close>, for a radar id without
  regular-expression operators (the route admits \<^verbatim>\<open>IDR\<close> and three digits only):
  the name is the prefix, twelve digits and \<^verbatim>\<open>.png\<close>; the match gives the digits.
\<close>

definition isDigit :: "char \<Rightarrow> bool" where
  "isDigit c = (CHR ''0'' \<le> c \<and> c \<le> CHR ''9'')"

definition matchTimestamp :: "string \<Rightarrow> string \<Rightarrow> string \<Rightarrow> string option" where
  "matchTimestamp radarId suffix nm =
     (let pre = radarId @ suffix @ ''.T.'';
          rest = drop (length pre) nm
      in if take (length pre) nm = pre \<and> length rest = 16 \<and> drop 12 rest = ''.png''
            \<and> list_all isDigit (take 12 rest)
         then Some (take 12 rest) else None)"

text \<open>\<^verbatim>\<open>slice(0, n)\<close>: a negative \<open>n\<close> counts from the end.\<close>

definition slice0 :: "'a list \<Rightarrow> int \<Rightarrow> 'a list" where
  "slice0 xs n = (if n \<ge> 0 then take (nat n) xs else take (length xs - nat (- n)) xs)"

definition extractTimestamps :: "string \<Rightarrow> string \<Rightarrow> int \<Rightarrow> entry list \<Rightarrow> string list" where
  "extractTimestamps radarId suffix maxResults items =
     slice0
       (rev (sort (List.map_filter (\<lambda>item. matchTimestamp radarId suffix (name item))
          (filter (\<lambda>item. etype item = CHR ''-'' \<and> matchTimestamp radarId suffix (name item) \<noteq> None)
             items))))
       maxResults"

text \<open>
  The result of a listing; \<open>rateLimited = None\<close> is a result object without the
  property \<^verbatim>\<open>rateLimited\<close>, which the route reports as \<^verbatim>\<open>false\<close>.
\<close>

record list_result =
  timestamps :: "string list"
  listFromCache :: bool
  nextRefreshIn :: rat
  rateLimited :: "bool option"

record list_outcome =
  listReply :: "error + list_result"
  metaAfter :: meta
  connects :: nat

definition listAvailableTimestamps ::
  "config \<Rightarrow> remote \<Rightarrow> int \<Rightarrow> string \<Rightarrow> nat \<Rightarrow> int \<Rightarrow> bool \<Rightarrow> meta \<Rightarrow> list_outcome" where
  "listAvailableTimestamps cfg r now radarId res maxResults force st =
     (case RESOLUTION_SUFFIX res of
        None \<Rightarrow> \<lparr> listReply = Inl (InvalidResolution res), metaAfter = st, connects = 0 \<rparr>
      | Some suffix \<Rightarrow>
          (let cacheKey = ''timestamps_'' @ radarId @ ''_'' @ dec res;
               cached = nc_get st now cacheKey
           in if cached \<noteq> None \<and> \<not> force then
                (let nextRefresh = getTimeUntilNextRefresh cfg st now radarId
                 in \<lparr> listReply = Inr \<lparr> timestamps = the cached, listFromCache = True,
                                          nextRefreshIn = of_int nextRefresh, rateLimited = None \<rparr>,
                      metaAfter = st, connects = 0 \<rparr>)
              else if \<not> force \<and> \<not> canRefreshTimestamps cfg st now radarId then
                (let waitTime = getTimeUntilNextRefresh cfg st now radarId
                 in case cached of
                      Some ts \<Rightarrow>
                        \<lparr> listReply = Inr \<lparr> timestamps = ts, listFromCache = True,
                                             nextRefreshIn = of_int waitTime, rateLimited = Some True \<rparr>,
                          metaAfter = st, connects = 0 \<rparr>
                    | None \<Rightarrow>
                        \<lparr> listReply = Inl (RateLimit waitTime radarId), metaAfter = st,
                          connects = 0 \<rparr>)
              else
                (case connectFTP r of
                   Some e \<Rightarrow> \<lparr> listReply = Inl e, metaAfter = st, connects = 1 \<rparr>
                 | None \<Rightarrow>
                     (case ftp_list r FTP_PATH of
                        Inl e \<Rightarrow> \<lparr> listReply = Inl e, metaAfter = st, connects = 1 \<rparr>
                      | Inr items \<Rightarrow>
                          (let tss = extractTimestamps radarId suffix maxResults items;
                               st1 = nc_set cfg st now cacheKey tss;
                               st2 = updateTimestampRefreshTime st1 now radarId
                           in \<lparr> listReply = Inr \<lparr> timestamps = tss, listFromCache = False,
                                   nextRefreshIn = of_int (TIMESTAMP_REFRESH_INTERVAL cfg) / 1000,
                                   rateLimited = None \<rparr>,
                                metaAfter = st2, connects = 1 \<rparr>)))))"

subsection \<open>Observations on a cache directory\<close>

text \<open>
  The stored objects are the entries whose name ends in \<^verbatim>\<open>.png\<close>; the size of the
  store is the sum of their sizes; \<open>oldestFirst\<close> lists their sizes and
  modification times, oldest first, in the order of the stable sort.
\<close>

definition pngs :: "dir \<Rightarrow> dir" where
  "pngs d = filter (\<lambda>e. endsWith (fst e) ''.png'') d"

definition stat_of :: "string \<times> disk_file \<Rightarrow> file_stat" where
  "stat_of e = \<lparr> path = fst e, fsize = length (content (snd e)), mtime = mtimeMs (snd e) \<rparr>"

definition storeSize :: "dir \<Rightarrow> nat" where
  "storeSize d = sum_list (map fsize (map stat_of (pngs d)))"

definition oldestFirst :: "dir \<Rightarrow> file_stat list" where
  "oldestFirst d = sort_key mtime (map stat_of (pngs d))"

subsection \<open>Concrete origins and stores used in the examples\<close>

definition ex_remote :: remote where
  "ex_remote = \<lparr> connectFTP = None,
                  ftp_get = (\<lambda>p. Inr (Chunk ''PN'' (Chunk ''G'' End))),
                  ftp_list = (\<lambda>p. Inr [\<lparr> etype = CHR ''-'', name = ''IDR0231.T.202410231430.png'' \<rparr>]) \<rparr>"

definition ex_broken :: remote where
  "ex_broken = \<lparr> connectFTP = None,
                  ftp_get = (\<lambda>p. Inr (Chunk ''PN'' (StreamError (FtpError 426)))),
                  ftp_list = (\<lambda>p. Inl FtpTimeout) \<rparr>"

definition ex_stat_fault :: faults where
  "ex_stat_fault = (\<lambda>op p. op = Stat \<and> p = ''IDR023_202410230000_64.png'')"

definition ex_unlink_fault :: faults where
  "ex_unlink_fault = (\<lambda>op p. op = Unlink \<and> p = ''IDR023_202410230000_64.png'')"

definition ex_meta :: meta where
  "ex_meta = \<lparr> metaCache = (\<lambda>_. None)(''timestamps_IDR023_64'' \<mapsto> ([''202410231430''], 1729694460000)),
                lastTimestampRefresh = (\<lambda>_. None)(''IDR023'' \<mapsto> 1729693860000) \<rparr>"

definition ex_store :: dir where
  "ex_store =
     [(''IDR023_202410230006_64.png'', \<lparr> mtimeMs = 1729706402000, content = replicate 500000 (CHR ''x'') \<rparr>),
      (''IDR023_202410230000_64.png'', \<lparr> mtimeMs = 1729706401000, content = replicate 600000 (CHR ''x'') \<rparr>),
      (''IDR023_202410230012_64.png'', \<lparr> mtimeMs = 1729706403000, content = replicate 300000 (CHR ''x'') \<rparr>)]"

definition ex_small_config :: config where
  "ex_small_config = load_config None None (Some 1)"

definition ex_sized :: remote where
  "ex_sized = \<lparr> connectFTP = None,
                 ftp_get = (\<lambda>p. if p = ''/anon/gen/radar/IDR0231.T.202410230000.png''
                                then Inr (Chunk (replicate 600000 (CHR ''x'')) End)
                                else Inr (Chunk (replicate 500000 (CHR ''y'')) End)),
                 ftp_list = (\<lambda>p. Inl FtpTimeout) \<rparr>"

definition ex_after_first :: dir where
  "ex_after_first =
     snd (getAndSweep ex_small_config utcDate no_faults ex_sized 1729706400000
            ''IDR023'' ''202410230000'' 64 [])"

definition ex_after_second :: dir where
  "ex_after_second =
     snd (getAndSweep ex_small_config utcDate no_faults ex_sized 1729706460000
            ''IDR023'' ''202410230006'' 64 ex_after_first)"

definition ex_expired :: dir where
  "ex_expired =
     [(''IDR023_202410230006_64.png'', \<lparr> mtimeMs = 1729706400000, content = ''PNG'' \<rparr>),
      (''IDR023_202410230000_64.png'', \<lparr> mtimeMs = 1729706400000, content = ''PNG'' \<rparr>),
      (''IDR023_202410230012_64.png'', \<lparr> mtimeMs = 1729706400000, content = ''PNG'' \<rparr>)]"

definition ex_store2 :: dir where
  "ex_store2 =
     [(''IDR023_202410230000_64.png'', \<lparr> mtimeMs = 1729706402000, content = replicate 600000 (CHR ''x'') \<rparr>),
      (''IDR023_202410230006_64.png'', \<lparr> mtimeMs = 1729706401000, content = replicate 300000 (CHR ''x'') \<rparr>),
      (''IDR023_202410230012_64.png'', \<lparr> mtimeMs = 1729706403000, content = replicate 500000 (CHR ''x'') \<rparr>)]"

section \<open>Properties\<close>

subsection \<open>Evaluation of the examples\<close>

lemma dec_64: "dec 64 = ''64''" by code_simp
lemma dec_128: "dec 128 = ''128''" by code_simp
lemma dec_256: "dec 256 = ''256''" by code_simp
lemma dec_512: "dec 512 = ''512''" by code_simp

lemma cacheFile_64: "cacheFile radarId timestamp 64 = radarId @ ''_'' @ timestamp @ ''_64.png''"
  by (simp add: cacheFile_def dec_64)

lemma ts_0000: "parseTimestamp utcDate ''202410230000'' = 1729641600000"
  by (simp add: parseTimestamp_def utcDate_def parseInt_def substring_def digit_val_def
        days_from_civil_def Let_def)

lemma ts_1430: "parseTimestamp utcDate ''202410231430'' = 1729693800000"
  by (simp add: parseTimestamp_def utcDate_def parseInt_def substring_def digit_val_def
        days_from_civil_def Let_def)

lemma default_config_simps:
  "TIMESTAMP_REFRESH_INTERVAL default_config = 600000"
  "DISK_CACHE_TTL default_config = 86400"
  "MAX_CACHE_SIZE_MB default_config = 1000"
  by (simp_all add: default_config_def load_config_def env_or_def)

lemma no_faults_simp: "no_faults op p = False"
  by (simp add: no_faults_def)

lemmas get_eval = getRadarImage_def lookupCache_def fetchAndStore_def downloadFromFTP_def
  buildRadarUrl_def RESOLUTION_SUFFIX_def SUPPORTED_RESOLUTIONS_def FTP_PATH_def
  fs_stat_def fs_unlink_def fs_readFile_def fs_writeFile_def remove_file_def no_faults_simp
  default_config_simps age_def CURRENT_IMAGE_THRESHOLD_def
  CURRENT_IMAGE_REFRESH_INTERVAL_def cacheFile_64 ex_remote_def ex_broken_def Let_def

lemma ex_download_0000:
  "getRadarImage default_config utcDate no_faults ex_remote 1729706400000 ''IDR023'' ''202410230000'' 64 [] =
     \<lparr> reply = Inr \<lparr> buffer = ''PNG'', fromCache = False, cacheAge = 0, imageAge = 64800, resolution = 64 \<rparr>,
       disk = [(''IDR023_202410230000_64.png'', \<lparr> mtimeMs = 1729706400000, content = ''PNG'' \<rparr>)],
       downloads = 1, sizeCheck = True \<rparr>"
  by (simp add: get_eval ts_0000)

lemma ex_small_config_simps:
  "MAX_CACHE_SIZE_MB ex_small_config = 1" "targetSize_of ex_small_config = 4194304 / 5"
  by (simp_all add: ex_small_config_def load_config_def env_or_def targetSize_of_def)

lemma ex_small_config_fields:
  "TIMESTAMP_REFRESH_INTERVAL ex_small_config = 600000"
  "DISK_CACHE_TTL ex_small_config = 86400"
  by (simp_all add: ex_small_config_def load_config_def env_or_def)

lemma ts_0006: "parseTimestamp utcDate ''202410230006'' = 1729641960000"
  by (simp add: parseTimestamp_def utcDate_def parseInt_def substring_def digit_val_def
        days_from_civil_def Let_def)

lemmas sweep_eval = getAndSweep_def checkCacheSize_def fs_readdir_def endsWith_def
  ex_small_config_simps ex_small_config_fields

subsection \<open>The cache directory\<close>

lemma map_of_remove_file: "map_of (remove_file p d) q = (if q = p then None else map_of d q)"
  unfolding remove_file_def by (induction d) auto

lemma map_of_put_file: "map_of (put_file p f d) q = (if q = p then Some f else map_of d q)"
  by (induction d) auto

lemma put_file_absent: "map_of d p = None \<Longrightarrow> put_file p f d = d @ [(p, f)]"
  by (induction d) (auto split: if_splits)

lemma age_mono: "t \<le> t' \<Longrightarrow> age t x \<le> age t' x"
  unfolding age_def by (simp add: divide_right_mono)

lemma lookupCache_hit:
  assumes "fs_stat flt d p = Some st" "fs_readFile flt d p = Some b"
    and "age now (mtimeMs st) < of_int (DISK_CACHE_TTL cfg)"
    and "\<not> a < of_int CURRENT_IMAGE_THRESHOLD \<or> a < of_int CURRENT_IMAGE_REFRESH_INTERVAL / 1000"
  shows "lookupCache cfg flt now d p a res =
     Hit \<lparr> buffer = b, fromCache = True, cacheAge = \<lfloor>age now (mtimeMs st)\<rfloor>,
           imageAge = \<lfloor>a\<rfloor>, resolution = res \<rparr>"
  using assms unfolding lookupCache_def by (auto simp: Let_def)

lemma lookupCache_expired:
  assumes "fs_stat flt d p = Some st" "\<not> flt Unlink p"
    and "age now (mtimeMs st) \<ge> of_int (DISK_CACHE_TTL cfg)"
  shows "lookupCache cfg flt now d p a res = Miss (remove_file p d)"
  using assms unfolding lookupCache_def fs_unlink_def fs_stat_def
  by (auto simp: Let_def split: if_splits)

lemma lookupCache_stale:
  assumes "fs_stat flt d p = Some st" "\<not> flt Unlink p"
    and "age now (mtimeMs st) < of_int (DISK_CACHE_TTL cfg)"
    and "a < of_int CURRENT_IMAGE_THRESHOLD" "\<not> a < of_int CURRENT_IMAGE_REFRESH_INTERVAL / 1000"
  shows "lookupCache cfg flt now d p a res = Miss (remove_file p d)"
  using assms unfolding lookupCache_def fs_unlink_def fs_stat_def
  by (auto simp: Let_def split: if_splits)

lemma lookupCache_absent:
  assumes "map_of d p = None"
  shows "lookupCache cfg flt now d p a res = Miss d"
  using assms unfolding lookupCache_def fs_stat_def by (auto simp: Let_def)

lemma getRadarImage_miss:
  assumes "res \<in> set SUPPORTED_RESOLUTIONS"
    and "lookupCache cfg flt now d (cacheFile radarId timestamp res)
           (age now (parseTimestamp mk timestamp)) res = Miss d'"
  shows "getRadarImage cfg mk flt r now radarId timestamp res d =
     fetchAndStore flt r now d' radarId timestamp res (cacheFile radarId timestamp res)
       (age now (parseTimestamp mk timestamp))"
  using assms unfolding getRadarImage_def by (simp add: Let_def)

lemma getRadarImage_hit:
  assumes "res \<in> set SUPPORTED_RESOLUTIONS"
    and "lookupCache cfg flt now d (cacheFile radarId timestamp res)
           (age now (parseTimestamp mk timestamp)) res = Hit x"
  shows "getRadarImage cfg mk flt r now radarId timestamp res d =
     \<lparr> reply = Inr x, disk = d, downloads = 0, sizeCheck = False \<rparr>"
  using assms unfolding getRadarImage_def by (simp add: Let_def)

lemma lookupCache_disk:
  "lookupCache cfg flt now d p a res = Miss d' \<Longrightarrow> d' = d \<or> d' = remove_file p d"
  unfolding lookupCache_def fs_unlink_def
  by (auto simp: Let_def split: option.splits if_splits)

lemma fetchAndStore_fresh:
  assumes "reply (fetchAndStore flt r now d radarId timestamp res p a) = Inr x"
  shows "\<not> fromCache x \<and> map_of (disk (fetchAndStore flt r now d radarId timestamp res p a)) p
           = Some \<lparr> mtimeMs = now, content = buffer x \<rparr>"
  using assms unfolding fetchAndStore_def fs_writeFile_def
  by (auto simp: map_of_put_file split: sum.splits option.splits if_splits write_result.splits)

subsection \<open>Image retrieval\<close>

lemma getRadarImage_stored:
  assumes sup: "res \<in> set SUPPORTED_RESOLUTIONS"
    and ok: "reply (getRadarImage cfg mk flt r now radarId timestamp res d) = Inr x"
    and fresh: "\<not> fromCache x"
  shows "map_of (disk (getRadarImage cfg mk flt r now radarId timestamp res d))
           (cacheFile radarId timestamp res) = Some \<lparr> mtimeMs = now, content = buffer x \<rparr>"
proof (cases "lookupCache cfg flt now d (cacheFile radarId timestamp res)
           (age now (parseTimestamp mk timestamp)) res")
  case (Hit y)
  from getRadarImage_hit [OF sup Hit] ok have "x = y" by simp
  moreover from Hit have "fromCache y"
    unfolding lookupCache_def by (auto simp: Let_def split: option.splits if_splits)
  ultimately show ?thesis using fresh by simp
next
  case (Miss d')
  show ?thesis
    using ok fetchAndStore_fresh unfolding getRadarImage_miss [OF sup Miss] by blast
qed

lemma getRadarImage_usable_hit:
  assumes sup: "res \<in> set SUPPORTED_RESOLUTIONS"
    and fl: "map_of d (cacheFile radarId timestamp res) = Some f"
    and io: "\<not> flt Stat (cacheFile radarId timestamp res)"
            "\<not> flt ReadFile (cacheFile radarId timestamp res)"
    and ttl: "age now (mtimeMs f) < of_int (DISK_CACHE_TTL cfg)"
    and usable: "\<not> age now (parseTimestamp mk timestamp) < of_int CURRENT_IMAGE_THRESHOLD
                 \<or> age now (parseTimestamp mk timestamp) < of_int CURRENT_IMAGE_REFRESH_INTERVAL / 1000"
  shows "getRadarImage cfg mk flt r now radarId timestamp res d =
     \<lparr> reply = Inr \<lparr> buffer = content f, fromCache = True,
                      cacheAge = \<lfloor>age now (mtimeMs f)\<rfloor>,
                      imageAge = \<lfloor>age now (parseTimestamp mk timestamp)\<rfloor>, resolution = res \<rparr>,
       disk = d, downloads = 0, sizeCheck = False \<rparr>"
proof -
  have st: "fs_stat flt d (cacheFile radarId timestamp res) = Some f"
    using fl io unfolding fs_stat_def by simp
  have rd: "fs_readFile flt d (cacheFile radarId timestamp res) = Some (content f)"
    using fl io unfolding fs_readFile_def by simp
  show ?thesis
    using getRadarImage_hit [OF sup lookupCache_hit [OF st rd ttl usable]] by blast
qed

lemma serve_hits:
  assumes sup: "res \<in> set SUPPORTED_RESOLUTIONS"
    and io: "\<not> flt Stat (cacheFile radarId timestamp res)"
            "\<not> flt ReadFile (cacheFile radarId timestamp res)"
    and fl: "map_of d (cacheFile radarId timestamp res) = Some f"
    and within: "\<forall>t\<in>set ts. age t (mtimeMs f) < of_int (DISK_CACHE_TTL cfg)
                   \<and> (\<not> age t (parseTimestamp mk timestamp) < of_int CURRENT_IMAGE_THRESHOLD
                      \<or> age t (parseTimestamp mk timestamp) < of_int CURRENT_IMAGE_REFRESH_INTERVAL / 1000)"
  shows "serve cfg mk flt r radarId timestamp res ts d =
     map (\<lambda>t. \<lparr> reply = Inr \<lparr> buffer = content f, fromCache = True,
                      cacheAge = \<lfloor>age t (mtimeMs f)\<rfloor>,
                      imageAge = \<lfloor>age t (parseTimestamp mk timestamp)\<rfloor>, resolution = res \<rparr>,
       disk = d, downloads = 0, sizeCheck = False \<rparr>) ts"
  using within
proof (induction ts)
  case Nil
  show ?case by simp
next
  case (Cons t ts)
  have "getRadarImage cfg mk flt r t radarId timestamp res d =
     \<lparr> reply = Inr \<lparr> buffer = content f, fromCache = True,
                      cacheAge = \<lfloor>age t (mtimeMs f)\<rfloor>,
                      imageAge = \<lfloor>age t (parseTimestamp mk timestamp)\<rfloor>, resolution = res \<rparr>,
       disk = d, downloads = 0, sizeCheck = False \<rparr>"
    using getRadarImage_usable_hit [where flt = flt, OF sup fl io] Cons.prems by simp
  then show ?case using Cons by (simp add: getAndSweep_def Let_def)
qed

lemma serve_after_download:
  assumes sup: "res \<in> set SUPPORTED_RESOLUTIONS"
    and io: "\<not> flt Stat (cacheFile radarId timestamp res)"
            "\<not> flt ReadFile (cacheFile radarId timestamp res)"
    and stored: "reply (getRadarImage cfg mk flt r t0 radarId timestamp res d) = Inr x0"
                "\<not> fromCache x0"
    and within: "\<forall>t\<in>set ts. age t t0 < of_int (DISK_CACHE_TTL cfg)
                   \<and> (\<not> age t (parseTimestamp mk timestamp) < of_int CURRENT_IMAGE_THRESHOLD
                      \<or> age t (parseTimestamp mk timestamp) < of_int CURRENT_IMAGE_REFRESH_INTERVAL / 1000)"
  shows "serve cfg mk flt r radarId timestamp res ts
           (disk (getRadarImage cfg mk flt r t0 radarId timestamp res d)) =
         map (\<lambda>t. \<lparr> reply = Inr \<lparr> buffer = buffer x0, fromCache = True,
                          cacheAge = \<lfloor>age t t0\<rfloor>,
                          imageAge = \<lfloor>age t (parseTimestamp mk timestamp)\<rfloor>,
                          resolution = res \<rparr>,
                      disk = disk (getRadarImage cfg mk flt r t0 radarId timestamp res d),
                      downloads = 0, sizeCheck = False \<rparr>) ts"
proof -
  let ?d1 = "disk (getRadarImage cfg mk flt r t0 radarId timestamp res d)"
  let ?f = "\<lparr> mtimeMs = t0, content = buffer x0 \<rparr>"
  have fl: "map_of ?d1 (cacheFile radarId timestamp res) = Some ?f"
    using getRadarImage_stored [OF sup stored] .
  from within have "\<forall>t\<in>set ts. age t (mtimeMs ?f) < of_int (DISK_CACHE_TTL cfg)
          \<and> (\<not> age t (parseTimestamp mk timestamp) < of_int CURRENT_IMAGE_THRESHOLD
             \<or> age t (parseTimestamp mk timestamp) < of_int CURRENT_IMAGE_REFRESH_INTERVAL / 1000)"
    by simp
  from serve_hits [where flt = flt, OF sup io fl this] show ?thesis by simp
qed

text \<open>
  Claim C5, as stated: once a historical object is stored, every later call within
  \<open>DISK_CACHE_TTL\<close> of the store time is served from the cache. With a budget of
  1 MB: the object (600000 bytes) is downloaded and stored; a minute later another key
  (500000 bytes) is downloaded, the size sweep that this download starts finds the
  store over budget and deletes the older object; another minute later the first key,
  still historical and stored two minutes ago, is downloaded again.
\<close>

lemma ex_after_first_eval:
  "ex_after_first =
     [(''IDR023_202410230000_64.png'',
       \<lparr> mtimeMs = 1729706400000, content = replicate 600000 (CHR ''x'') \<rparr>)]"
  unfolding ex_after_first_def
  by (simp add: getRadarImage_def lookupCache_def fetchAndStore_def downloadFromFTP_def
  buildRadarUrl_def RESOLUTION_SUFFIX_def SUPPORTED_RESOLUTIONS_def FTP_PATH_def
  fs_stat_def fs_unlink_def fs_readFile_def fs_writeFile_def remove_file_def no_faults_simp
  age_def CURRENT_IMAGE_THRESHOLD_def
  CURRENT_IMAGE_REFRESH_INTERVAL_def cacheFile_64 ex_sized_def Let_def sweep_eval ts_0000)

lemma ex_after_second_eval:
  "ex_after_second =
     [(''IDR023_202410230006_64.png'',
       \<lparr> mtimeMs = 1729706460000, content = replicate 500000 (CHR ''y'') \<rparr>)]"
  unfolding ex_after_second_def ex_after_first_eval
  by (simp add: getRadarImage_def lookupCache_def fetchAndStore_def downloadFromFTP_def
  buildRadarUrl_def RESOLUTION_SUFFIX_def SUPPORTED_RESOLUTIONS_def FTP_PATH_def
  fs_stat_def fs_unlink_def fs_readFile_def fs_writeFile_def remove_file_def no_faults_simp
  age_def CURRENT_IMAGE_THRESHOLD_def targetSize_of_def
  CURRENT_IMAGE_REFRESH_INTERVAL_def cacheFile_64 ex_sized_def Let_def sweep_eval ts_0006)

theorem C5_counterexample:
  "fst (getAndSweep ex_small_config utcDate no_faults ex_sized 1729706400000
          ''IDR023'' ''202410230000'' 64 []) =
     \<lparr> reply = Inr \<lparr> buffer = replicate 600000 (CHR ''x''), fromCache = False, cacheAge = 0,
                      imageAge = 64800, resolution = 64 \<rparr>,
       disk = [(''IDR023_202410230000_64.png'',
                \<lparr> mtimeMs = 1729706400000, content = replicate 600000 (CHR ''x'') \<rparr>)],
       downloads = 1, sizeCheck = True \<rparr>
   \<and> ex_after_first =
     [(''IDR023_202410230000_64.png'',
       \<lparr> mtimeMs = 1729706400000, content = replicate 600000 (CHR ''x'') \<rparr>)]
   \<and> ex_after_second =
     [(''IDR023_202410230006_64.png'',
       \<lparr> mtimeMs = 1729706460000, content = replicate 500000 (CHR ''y'') \<rparr>)]
   \<and> age 1729706520000 (parseTimestamp utcDate ''202410230000'') \<ge> of_int CURRENT_IMAGE_THRESHOLD
   \<and> age 1729706520000 1729706400000 < of_int (DISK_CACHE_TTL ex_small_config)
   \<and> getRadarImage ex_small_config utcDate no_faults ex_sized 1729706520000
        ''IDR023'' ''202410230000'' 64 ex_after_second =
     \<lparr> reply = Inr \<lparr> buffer = replicate 600000 (CHR ''x''), fromCache = False, cacheAge = 0,
                      imageAge = 64920, resolution = 64 \<rparr>,
       disk = [(''IDR023_202410230006_64.png'',
                \<lparr> mtimeMs = 1729706460000, content = replicate 500000 (CHR ''y'') \<rparr>),
               (''IDR023_202410230000_64.png'',
                \<lparr> mtimeMs = 1729706520000, content = replicate 600000 (CHR ''x'') \<rparr>)],
       downloads = 1, sizeCheck = True \<rparr>"
  unfolding ex_after_second_eval ex_after_first_eval
  by (simp add: getRadarImage_def lookupCache_def fetchAndStore_def downloadFromFTP_def
  buildRadarUrl_def RESOLUTION_SUFFIX_def SUPPORTED_RESOLUTIONS_def FTP_PATH_def
  fs_stat_def fs_unlink_def fs_readFile_def fs_writeFile_def remove_file_def no_faults_simp
  age_def CURRENT_IMAGE_THRESHOLD_def
  CURRENT_IMAGE_REFRESH_INTERVAL_def cacheFile_64 ex_sized_def Let_def sweep_eval ts_0000)

text \<open>
  Claim C5, amended. For a historical key (content age at least 1800 seconds at the
  request), every call made while an object stored for the key is in the cache
  directory, within \<open>DISK_CACHE_TTL\<close> of the time it was stored, returns the stored
  bytes from the cache, downloads nothing, starts no sweep and leaves the directory as
  it is; so any number of such calls in sequence are all served from the cache. An
  object that a sweep has evicted is downloaded again. \<^verbatim>\<open>stat\<close> and
  \<^verbatim>\<open>readFile\<close> of the file do not raise.
\<close>

theorem C5_historical_served_while_stored:
  assumes sup: "res \<in> set SUPPORTED_RESOLUTIONS"
    and io: "\<not> flt Stat (cacheFile radarId timestamp res)"
            "\<not> flt ReadFile (cacheFile radarId timestamp res)"
    and present: "map_of d (cacheFile radarId timestamp res) = Some f"
    and within: "\<forall>t\<in>set ts. age t (mtimeMs f) < of_int (DISK_CACHE_TTL cfg)
                   \<and> age t (parseTimestamp mk timestamp) \<ge> of_int CURRENT_IMAGE_THRESHOLD"
  shows "(\<forall>t\<in>set ts. getRadarImage cfg mk flt r t radarId timestamp res d =
            \<lparr> reply = Inr \<lparr> buffer = content f, fromCache = True,
                             cacheAge = \<lfloor>age t (mtimeMs f)\<rfloor>,
                             imageAge = \<lfloor>age t (parseTimestamp mk timestamp)\<rfloor>,
                             resolution = res \<rparr>,
              disk = d, downloads = 0, sizeCheck = False \<rparr>)
       \<and> serve cfg mk flt r radarId timestamp res ts d =
           map (\<lambda>t. \<lparr> reply = Inr \<lparr> buffer = content f, fromCache = True,
                             cacheAge = \<lfloor>age t (mtimeMs f)\<rfloor>,
                             imageAge = \<lfloor>age t (parseTimestamp mk timestamp)\<rfloor>,
                             resolution = res \<rparr>,
                         disk = d, downloads = 0, sizeCheck = False \<rparr>) ts"
proof
  show "\<forall>t\<in>set ts. getRadarImage cfg mk flt r t radarId timestamp res d =
            \<lparr> reply = Inr \<lparr> buffer = content f, fromCache = True,
                             cacheAge = \<lfloor>age t (mtimeMs f)\<rfloor>,
                             imageAge = \<lfloor>age t (parseTimestamp mk timestamp)\<rfloor>,
                             resolution = res \<rparr>,
              disk = d, downloads = 0, sizeCheck = False \<rparr>"
  proof
    fix t assume "t \<in> set ts"
    with within have ttl: "age t (mtimeMs f) < of_int (DISK_CACHE_TTL cfg)"
      and "\<not> age t (parseTimestamp mk timestamp) < of_int CURRENT_IMAGE_THRESHOLD"
      by auto
    then show "getRadarImage cfg mk flt r t radarId timestamp res d =
            \<lparr> reply = Inr \<lparr> buffer = content f, fromCache = True,
                             cacheAge = \<lfloor>age t (mtimeMs f)\<rfloor>,
                             imageAge = \<lfloor>age t (parseTimestamp mk timestamp)\<rfloor>,
                             resolution = res \<rparr>,
              disk = d, downloads = 0, sizeCheck = False \<rparr>"
      using getRadarImage_usable_hit [where flt = flt, OF sup present io ttl] by blast
  qed
next
  from within have "\<forall>t\<in>set ts. age t (mtimeMs f) < of_int (DISK_CACHE_TTL cfg)
          \<and> (\<not> age t (parseTimestamp mk timestamp) < of_int CURRENT_IMAGE_THRESHOLD
             \<or> age t (parseTimestamp mk timestamp) < of_int CURRENT_IMAGE_REFRESH_INTERVAL / 1000)"
    by auto
  from serve_hits [where flt = flt, OF sup io present this]
  show "serve cfg mk flt r radarId timestamp res ts d =
           map (\<lambda>t. \<lparr> reply = Inr \<lparr> buffer = content f, fromCache = True,
                             cacheAge = \<lfloor>age t (mtimeMs f)\<rfloor>,
                             imageAge = \<lfloor>age t (parseTimestamp mk timestamp)\<rfloor>,
                             resolution = res \<rparr>,
                         disk = d, downloads = 0, sizeCheck = False \<rparr>) ts" .
qed

theorem C5_witness:
  "serve default_config utcDate no_faults ex_broken ''IDR023'' ''202410230000'' 64
     [1729706400000 + 60000, 1729706400000 + 57600000]
     [(''IDR023_202410230000_64.png'', \<lparr> mtimeMs = 1729706400000, content = ''PNG'' \<rparr>)] =
   [\<lparr> reply = Inr \<lparr> buffer = ''PNG'', fromCache = True, cacheAge = 60, imageAge = 64860, resolution = 64 \<rparr>,
      disk = [(''IDR023_202410230000_64.png'', \<lparr> mtimeMs = 1729706400000, content = ''PNG'' \<rparr>)],
      downloads = 0, sizeCheck = False \<rparr>,
    \<lparr> reply = Inr \<lparr> buffer = ''PNG'', fromCache = True, cacheAge = 57600, imageAge = 122400, resolution = 64 \<rparr>,
      disk = [(''IDR023_202410230000_64.png'', \<lparr> mtimeMs = 1729706400000, content = ''PNG'' \<rparr>)],
      downloads = 0, sizeCheck = False \<rparr>]"
proof -
  let ?d = "[(''IDR023_202410230000_64.png'', \<lparr> mtimeMs = 1729706400000, content = ''PNG'' \<rparr>)]"
  let ?f = "\<lparr> mtimeMs = 1729706400000, content = ''PNG'' \<rparr>"
  have h1: "(64::nat) \<in> set SUPPORTED_RESOLUTIONS"
    by (simp add: SUPPORTED_RESOLUTIONS_def)
  have h2: "\<not> no_faults Stat (cacheFile ''IDR023'' ''202410230000'' 64)"
           "\<not> no_faults ReadFile (cacheFile ''IDR023'' ''202410230000'' 64)"
    by (simp_all add: no_faults_simp)
  have h3: "map_of ?d (cacheFile ''IDR023'' ''202410230000'' 64) = Some ?f"
    by (simp add: cacheFile_64)
  have h4: "\<forall>t\<in>set [1729706400000 + 60000, 1729706400000 + 57600000].
              age t (mtimeMs ?f) < of_int (DISK_CACHE_TTL default_config)
            \<and> age t (parseTimestamp utcDate ''202410230000'') \<ge> of_int CURRENT_IMAGE_THRESHOLD"
    by (simp add: age_def ts_0000 default_config_simps CURRENT_IMAGE_THRESHOLD_def)
  from C5_historical_served_while_stored [where flt = no_faults and r = ex_broken, OF h1 h2 h3 h4]
  show ?thesis by (simp add: age_def ts_0000)
qed

text \<open>
  Claim C7. A call that finds an object whose storage age is at least
  \<open>DISK_CACHE_TTL\<close> deletes it and goes on exactly as a miss: the call equals the
  call on the directory without the object, and when the download and the write
  succeed it returns the fresh bytes with \<open>fromCache = False\<close> and
  \<open>cacheAge = 0\<close>, the directory holding the new object under the key.
\<close>

theorem C7_expired_object_treated_as_miss:
  assumes sup: "res \<in> set SUPPORTED_RESOLUTIONS"
    and found: "fs_stat flt d (cacheFile radarId timestamp res) = Some st"
    and expired: "age now (mtimeMs st) \<ge> of_int (DISK_CACHE_TTL cfg)"
    and io: "\<not> flt Unlink (cacheFile radarId timestamp res)"
  shows "lookupCache cfg flt now d (cacheFile radarId timestamp res)
           (age now (parseTimestamp mk timestamp)) res
           = Miss (remove_file (cacheFile radarId timestamp res) d)
       \<and> getRadarImage cfg mk flt r now radarId timestamp res d
           = getRadarImage cfg mk flt r now radarId timestamp res
               (remove_file (cacheFile radarId timestamp res) d)
       \<and> (\<forall>buf. downloadFromFTP r radarId timestamp res = Inr buf
             \<and> \<not> flt WriteFile (cacheFile radarId timestamp res) \<longrightarrow>
           getRadarImage cfg mk flt r now radarId timestamp res d =
             \<lparr> reply = Inr \<lparr> buffer = buf, fromCache = False, cacheAge = 0,
                              imageAge = \<lfloor>age now (parseTimestamp mk timestamp)\<rfloor>,
                              resolution = res \<rparr>,
               disk = remove_file (cacheFile radarId timestamp res) d
                        @ [(cacheFile radarId timestamp res, \<lparr> mtimeMs = now, content = buf \<rparr>)],
               downloads = 1, sizeCheck = True \<rparr>)"
proof -
  let ?p = "cacheFile radarId timestamp res"
  let ?a = "age now (parseTimestamp mk timestamp)"
  have m1: "lookupCache cfg flt now d ?p ?a res = Miss (remove_file ?p d)"
    using lookupCache_expired [OF found io expired] .
  have absent: "map_of (remove_file ?p d) ?p = None" by (simp add: map_of_remove_file)
  have m2: "lookupCache cfg flt now (remove_file ?p d) ?p ?a res = Miss (remove_file ?p d)"
    using lookupCache_absent [OF absent] .
  have eq: "getRadarImage cfg mk flt r now radarId timestamp res d
           = getRadarImage cfg mk flt r now radarId timestamp res (remove_file ?p d)"
    unfolding getRadarImage_miss [OF sup m1] getRadarImage_miss [OF sup m2] ..
  have "getRadarImage cfg mk flt r now radarId timestamp res d =
             \<lparr> reply = Inr \<lparr> buffer = buf, fromCache = False, cacheAge = 0,
                              imageAge = \<lfloor>?a\<rfloor>, resolution = res \<rparr>,
               disk = remove_file ?p d @ [(?p, \<lparr> mtimeMs = now, content = buf \<rparr>)],
               downloads = 1, sizeCheck = True \<rparr>"
    if "downloadFromFTP r radarId timestamp res = Inr buf" "\<not> flt WriteFile ?p" for buf
    using that put_file_absent [OF absent]
    unfolding getRadarImage_miss [OF sup m1] fetchAndStore_def fs_writeFile_def by simp
  with m1 eq show ?thesis by blast
qed

theorem C7_witness:
  "getRadarImage default_config utcDate no_faults ex_remote 1729882800000 ''IDR023'' ''202410230000'' 64
     [(''IDR023_202410230000_64.png'', \<lparr> mtimeMs = 1729706400000, content = ''OLD'' \<rparr>)] =
   \<lparr> reply = Inr \<lparr> buffer = ''PNG'', fromCache = False, cacheAge = 0, imageAge = 241200,
                    resolution = 64 \<rparr>,
     disk = [(''IDR023_202410230000_64.png'', \<lparr> mtimeMs = 1729882800000, content = ''PNG'' \<rparr>)],
     downloads = 1, sizeCheck = True \<rparr>"
proof -
  let ?d = "[(''IDR023_202410230000_64.png'', \<lparr> mtimeMs = 1729706400000, content = ''OLD'' \<rparr>)]"
  have h1: "(64::nat) \<in> set SUPPORTED_RESOLUTIONS"
    by (simp add: SUPPORTED_RESOLUTIONS_def)
  have h2: "fs_stat no_faults ?d (cacheFile ''IDR023'' ''202410230000'' 64)
              = Some \<lparr> mtimeMs = 1729706400000, content = ''OLD'' \<rparr>"
    by (simp add: fs_stat_def no_faults_simp cacheFile_64)
  have h3: "age 1729882800000 (mtimeMs \<lparr> mtimeMs = 1729706400000, content = ''OLD'' \<rparr>)
              \<ge> of_int (DISK_CACHE_TTL default_config)"
    by (simp add: age_def default_config_simps)
  have h4: "\<not> no_faults Unlink (cacheFile ''IDR023'' ''202410230000'' 64)"
    by (simp add: no_faults_simp)
  have dl: "downloadFromFTP ex_remote ''IDR023'' ''202410230000'' 64 = Inr ''PNG''"
    by (simp add: get_eval)
  have h5: "\<not> no_faults WriteFile (cacheFile ''IDR023'' ''202410230000'' 64)"
    by (simp add: no_faults_simp)
  from C7_expired_object_treated_as_miss [OF h1 h2 h3 h4, of utcDate ex_remote]
  have "getRadarImage default_config utcDate no_faults ex_remote 1729882800000 ''IDR023''
          ''202410230000'' 64 ?d =
        \<lparr> reply = Inr \<lparr> buffer = ''PNG'', fromCache = False, cacheAge = 0,
            imageAge = \<lfloor>age 1729882800000 (parseTimestamp utcDate ''202410230000'')\<rfloor>,
            resolution = 64 \<rparr>,
          disk = remove_file (cacheFile ''IDR023'' ''202410230000'' 64) ?d
                   @ [(cacheFile ''IDR023'' ''202410230000'' 64,
                       \<lparr> mtimeMs = 1729882800000, content = ''PNG'' \<rparr>)],
          downloads = 1, sizeCheck = True \<rparr>"
    using dl h5 by blast
  then show ?thesis by (simp add: ts_0000 age_def cacheFile_64 remove_file_def)
qed

lemma receive_observed:
  "receive chunks s =
     (case stream_end s of
        None \<Rightarrow> Inr (concat (chunks @ stream_chunks s))
      | Some e \<Rightarrow> Inl e)"
  by (induction s arbitrary: chunks) (simp_all split: option.splits)

lemma receive_all:
  "receive [] s =
     (case stream_end s of
        None \<Rightarrow> Inr (concat (stream_chunks s))
      | Some e \<Rightarrow> Inl e)"
  using receive_observed [of "[]" s] by (simp split: option.splits)

lemma downloadFromFTP_stream:
  assumes "connectFTP r = None" "RESOLUTION_SUFFIX res = Some suffix"
    and "ftp_get r (''/anon/gen/radar/'' @ radarId @ suffix @ ''.T.'' @ timestamp @ ''.png'') = Inr s"
  shows "downloadFromFTP r radarId timestamp res =
     (case stream_end s of
        None \<Rightarrow> Inr (concat (stream_chunks s))
      | Some e \<Rightarrow> Inl e)"
  using assms unfolding downloadFromFTP_def buildRadarUrl_def FTP_PATH_def
  by (simp add: Let_def receive_all)

lemma downloadFromFTP_complete:
  assumes "downloadFromFTP r radarId timestamp res = Inr buf"
  shows "\<exists>suffix s. connectFTP r = None \<and> RESOLUTION_SUFFIX res = Some suffix
           \<and> ftp_get r (''/anon/gen/radar/'' @ radarId @ suffix @ ''.T.'' @ timestamp @ ''.png'') = Inr s
           \<and> stream_end s = None \<and> buf = concat (stream_chunks s)"
  using assms unfolding downloadFromFTP_def buildRadarUrl_def FTP_PATH_def
  by (auto simp: Let_def receive_all split: option.splits sum.splits)

text \<open>
  Claim C8. After a miss, with the directory \<open>d'\<close> at the point where the download
  begins:
  \<^item> when the download fails, with whatever error, the call fails with that error and
    the directory is \<open>d'\<close>;
  \<^item> this is so for a connection that fails, for a \<^verbatim>\<open>get\<close> that the origin refuses
    (the object is not there), and for a transfer that breaks with an error after any
    number of chunks: the chunks received are never written;
  \<^item> when the transfer runs to its end and the write does not raise, the call stores
    and returns the concatenation of all the chunks;
  \<^item> the directory differs from \<open>d'\<close> only after a transfer that ran to its end.
  A write that raises after a complete download may leave a partial file; that is no
  failed download.
\<close>

theorem C8_failed_download_persists_nothing:
  assumes sup: "res \<in> set SUPPORTED_RESOLUTIONS"
    and miss: "lookupCache cfg flt now d (cacheFile radarId timestamp res)
                 (age now (parseTimestamp mk timestamp)) res = Miss d'"
  shows "(\<forall>e. downloadFromFTP r radarId timestamp res = Inl e \<longrightarrow>
            getRadarImage cfg mk flt r now radarId timestamp res d =
              \<lparr> reply = Inl e, disk = d', downloads = 1, sizeCheck = False \<rparr>)
       \<and> (\<forall>e. connectFTP r = Some e \<longrightarrow>
            getRadarImage cfg mk flt r now radarId timestamp res d =
              \<lparr> reply = Inl e, disk = d', downloads = 1, sizeCheck = False \<rparr>)
       \<and> (\<forall>suffix e. connectFTP r = None \<and> RESOLUTION_SUFFIX res = Some suffix
              \<and> ftp_get r (''/anon/gen/radar/'' @ radarId @ suffix @ ''.T.'' @ timestamp @ ''.png'')
                   = Inl e \<longrightarrow>
            getRadarImage cfg mk flt r now radarId timestamp res d =
              \<lparr> reply = Inl e, disk = d', downloads = 1, sizeCheck = False \<rparr>)
       \<and> (\<forall>suffix s e. connectFTP r = None \<and> RESOLUTION_SUFFIX res = Some suffix
              \<and> ftp_get r (''/anon/gen/radar/'' @ radarId @ suffix @ ''.T.'' @ timestamp @ ''.png'')
                   = Inr s
              \<and> stream_end s = Some e \<longrightarrow>
            getRadarImage cfg mk flt r now radarId timestamp res d =
              \<lparr> reply = Inl e, disk = d', downloads = 1, sizeCheck = False \<rparr>)
       \<and> (\<forall>suffix s. connectFTP r = None \<and> RESOLUTION_SUFFIX res = Some suffix
              \<and> ftp_get r (''/anon/gen/radar/'' @ radarId @ suffix @ ''.T.'' @ timestamp @ ''.png'')
                   = Inr s
              \<and> stream_end s = None \<and> \<not> flt WriteFile (cacheFile radarId timestamp res) \<longrightarrow>
            getRadarImage cfg mk flt r now radarId timestamp res d =
              \<lparr> reply = Inr \<lparr> buffer = concat (stream_chunks s), fromCache = False, cacheAge = 0,
                               imageAge = \<lfloor>age now (parseTimestamp mk timestamp)\<rfloor>,
                               resolution = res \<rparr>,
                disk = put_file (cacheFile radarId timestamp res)
                         \<lparr> mtimeMs = now, content = concat (stream_chunks s) \<rparr> d',
                downloads = 1, sizeCheck = True \<rparr>)
       \<and> (disk (getRadarImage cfg mk flt r now radarId timestamp res d) \<noteq> d' \<longrightarrow>
            (\<exists>suffix s. connectFTP r = None \<and> RESOLUTION_SUFFIX res = Some suffix
               \<and> ftp_get r (''/anon/gen/radar/'' @ radarId @ suffix @ ''.T.'' @ timestamp @ ''.png'')
                    = Inr s
               \<and> stream_end s = None))"
proof -
  let ?out = "getRadarImage cfg mk flt r now radarId timestamp res d"
  let ?fail = "\<lambda>e. \<lparr> reply = Inl e, disk = d', downloads = 1, sizeCheck = False \<rparr>"
  have run: "?out = fetchAndStore flt r now d' radarId timestamp res
               (cacheFile radarId timestamp res) (age now (parseTimestamp mk timestamp))"
    using getRadarImage_miss [OF sup miss] .
  have failed: "?out = ?fail e" if "downloadFromFTP r radarId timestamp res = Inl e" for e
    using that unfolding run fetchAndStore_def by simp
  have c2: "?out = ?fail e" if "connectFTP r = Some e" for e
    using that failed [of e] unfolding downloadFromFTP_def by simp
  have c3: "?out = ?fail e"
    if "connectFTP r = None \<and> RESOLUTION_SUFFIX res = Some suffix
          \<and> ftp_get r (''/anon/gen/radar/'' @ radarId @ suffix @ ''.T.'' @ timestamp @ ''.png'') = Inl e"
    for suffix e
    using that failed [of e] unfolding downloadFromFTP_def buildRadarUrl_def FTP_PATH_def
    by (simp add: Let_def)
  have c4: "?out = ?fail e"
    if "connectFTP r = None \<and> RESOLUTION_SUFFIX res = Some suffix
          \<and> ftp_get r (''/anon/gen/radar/'' @ radarId @ suffix @ ''.T.'' @ timestamp @ ''.png'') = Inr s
          \<and> stream_end s = Some e"
    for suffix s e
    using that failed [of e] downloadFromFTP_stream [of r res suffix radarId timestamp s] by simp
  have c5: "?out = \<lparr> reply = Inr \<lparr> buffer = concat (stream_chunks s), fromCache = False, cacheAge = 0,
                               imageAge = \<lfloor>age now (parseTimestamp mk timestamp)\<rfloor>,
                               resolution = res \<rparr>,
                disk = put_file (cacheFile radarId timestamp res)
                         \<lparr> mtimeMs = now, content = concat (stream_chunks s) \<rparr> d',
                downloads = 1, sizeCheck = True \<rparr>"
    if "connectFTP r = None \<and> RESOLUTION_SUFFIX res = Some suffix
          \<and> ftp_get r (''/anon/gen/radar/'' @ radarId @ suffix @ ''.T.'' @ timestamp @ ''.png'') = Inr s
          \<and> stream_end s = None \<and> \<not> flt WriteFile (cacheFile radarId timestamp res)"
    for suffix s
    using that downloadFromFTP_stream [of r res suffix radarId timestamp s]
    unfolding run fetchAndStore_def fs_writeFile_def by simp
  have c6: "\<exists>suffix s. connectFTP r = None \<and> RESOLUTION_SUFFIX res = Some suffix
               \<and> ftp_get r (''/anon/gen/radar/'' @ radarId @ suffix @ ''.T.'' @ timestamp @ ''.png'')
                    = Inr s
               \<and> stream_end s = None"
    if changed: "disk ?out \<noteq> d'"
  proof (cases "downloadFromFTP r radarId timestamp res")
    case (Inl e)
    with failed [of e] changed show ?thesis by simp
  next
    case (Inr buf)
    from downloadFromFTP_complete [OF this] show ?thesis by blast
  qed
  from failed c2 c3 c4 c5 c6 show ?thesis by blast
qed

theorem C8_witness:
  "getRadarImage default_config utcDate no_faults ex_broken 1729693860000 ''IDR023'' ''202410231430'' 64 [] =
     \<lparr> reply = Inl (FtpError 426), disk = [], downloads = 1, sizeCheck = False \<rparr>"
proof -
  have h1: "(64::nat) \<in> set SUPPORTED_RESOLUTIONS"
    by (simp add: SUPPORTED_RESOLUTIONS_def)
  have h2: "lookupCache default_config no_faults 1729693860000 [] (cacheFile ''IDR023'' ''202410231430'' 64)
              (age 1729693860000 (parseTimestamp utcDate ''202410231430'')) 64 = Miss []"
    by (simp add: lookupCache_def fs_stat_def no_faults_simp)
  have broken: "connectFTP ex_broken = None \<and> RESOLUTION_SUFFIX 64 = Some ''1''
      \<and> ftp_get ex_broken (''/anon/gen/radar/'' @ ''IDR023'' @ ''1'' @ ''.T.'' @ ''202410231430'' @ ''.png'')
           = Inr (Chunk ''PN'' (StreamError (FtpError 426)))
      \<and> stream_end (Chunk ''PN'' (StreamError (FtpError 426))) = Some (FtpError 426)"
    by (simp add: ex_broken_def RESOLUTION_SUFFIX_def)
  from C8_failed_download_persists_nothing [OF h1 h2, of ex_broken] broken
  show ?thesis by blast
qed

lemma fetchAndStore_not_cached:
  "reply (fetchAndStore flt r now d radarId timestamp res p a) = Inr x \<Longrightarrow> \<not> fromCache x"
  using fetchAndStore_fresh by blast

text \<open>
  Claim C1, as stated: a current object that has not passed \<open>DISK_CACHE_TTL\<close> is
  served from the cache exactly when its storage age is below ten minutes. In the
  resolution-aware server this fails: after a download at content age 500 s, a call
  40 s later is a hit, and a call 160 s after the download, at content age 660 s and
  storage age 160 s, downloads again.
\<close>

theorem C1_counterexample:
  "age 1729694460000 (parseTimestamp utcDate ''202410231430'') < of_int CURRENT_IMAGE_THRESHOLD
   \<and> age 1729694460000 1729694300000 < of_int CURRENT_IMAGE_REFRESH_INTERVAL / 1000
   \<and> age 1729694460000 1729694300000 < of_int (DISK_CACHE_TTL default_config)
   \<and> serve default_config utcDate no_faults ex_remote ''IDR023'' ''202410231430'' 64
        [1729694300000, 1729694340000, 1729694460000] [] =
      [\<lparr> reply = Inr \<lparr> buffer = ''PNG'', fromCache = False, cacheAge = 0, imageAge = 500,
                       resolution = 64 \<rparr>,
         disk = [(''IDR023_202410231430_64.png'', \<lparr> mtimeMs = 1729694300000, content = ''PNG'' \<rparr>)],
         downloads = 1, sizeCheck = True \<rparr>,
       \<lparr> reply = Inr \<lparr> buffer = ''PNG'', fromCache = True, cacheAge = 40, imageAge = 540,
                       resolution = 64 \<rparr>,
         disk = [(''IDR023_202410231430_64.png'', \<lparr> mtimeMs = 1729694300000, content = ''PNG'' \<rparr>)],
         downloads = 0, sizeCheck = False \<rparr>,
       \<lparr> reply = Inr \<lparr> buffer = ''PNG'', fromCache = False, cacheAge = 0, imageAge = 660,
                       resolution = 64 \<rparr>,
         disk = [(''IDR023_202410231430_64.png'', \<lparr> mtimeMs = 1729694460000, content = ''PNG'' \<rparr>)],
         downloads = 1, sizeCheck = True \<rparr>]"
  by (simp add: get_eval ts_1430 getAndSweep_def checkCacheSize_def fs_readdir_def endsWith_def)

text \<open>
  Claim C1, amended. In the resolution-aware server the test is on the age of the
  timestamp in the key: a current object that has not passed \<open>DISK_CACHE_TTL\<close> is
  returned from the cache if and only if its content age is below
  \<open>CURRENT_IMAGE_REFRESH_INTERVAL\<close> (600 s); otherwise it is deleted and the call
  goes on as a miss. In particular, after a successful download at \<open>t0\<close>, the calls
  that follow at instants where the object has not passed \<open>DISK_CACHE_TTL\<close> and
  the content age is below 600 s are all served from the cache, whatever their
  distance from \<open>t0\<close>.
\<close>

theorem C1_current_usable_iff_content_age_in_window:
  assumes sup: "res \<in> set SUPPORTED_RESOLUTIONS"
    and found: "fs_stat flt d (cacheFile radarId timestamp res) = Some st"
    and live: "age now (mtimeMs st) < of_int (DISK_CACHE_TTL cfg)"
    and current: "age now (parseTimestamp mk timestamp) < of_int CURRENT_IMAGE_THRESHOLD"
    and io: "\<not> flt ReadFile (cacheFile radarId timestamp res)"
            "\<not> flt Unlink (cacheFile radarId timestamp res)"
  shows "((\<exists>x. reply (getRadarImage cfg mk flt r now radarId timestamp res d) = Inr x \<and> fromCache x)
            \<longleftrightarrow> age now (parseTimestamp mk timestamp) < of_int CURRENT_IMAGE_REFRESH_INTERVAL / 1000)
       \<and> (age now (parseTimestamp mk timestamp) < of_int CURRENT_IMAGE_REFRESH_INTERVAL / 1000 \<longrightarrow>
            getRadarImage cfg mk flt r now radarId timestamp res d =
              \<lparr> reply = Inr \<lparr> buffer = content st, fromCache = True,
                               cacheAge = \<lfloor>age now (mtimeMs st)\<rfloor>,
                               imageAge = \<lfloor>age now (parseTimestamp mk timestamp)\<rfloor>,
                               resolution = res \<rparr>,
                disk = d, downloads = 0, sizeCheck = False \<rparr>)
       \<and> (\<not> age now (parseTimestamp mk timestamp) < of_int CURRENT_IMAGE_REFRESH_INTERVAL / 1000 \<longrightarrow>
            lookupCache cfg flt now d (cacheFile radarId timestamp res)
                (age now (parseTimestamp mk timestamp)) res
              = Miss (remove_file (cacheFile radarId timestamp res) d)
            \<and> getRadarImage cfg mk flt r now radarId timestamp res d
              = getRadarImage cfg mk flt r now radarId timestamp res
                  (remove_file (cacheFile radarId timestamp res) d))
       \<and> (\<forall>t0 d0 x0 ts.
              reply (getRadarImage cfg mk flt r t0 radarId timestamp res d0) = Inr x0
            \<and> \<not> fromCache x0
            \<and> (\<forall>t\<in>set ts. age t t0 < of_int (DISK_CACHE_TTL cfg)
                  \<and> age t (parseTimestamp mk timestamp) < of_int CURRENT_IMAGE_REFRESH_INTERVAL / 1000)
            \<longrightarrow> serve cfg mk flt r radarId timestamp res ts
                  (disk (getRadarImage cfg mk flt r t0 radarId timestamp res d0)) =
                map (\<lambda>t. \<lparr> reply = Inr \<lparr> buffer = buffer x0, fromCache = True,
                                 cacheAge = \<lfloor>age t t0\<rfloor>,
                                 imageAge = \<lfloor>age t (parseTimestamp mk timestamp)\<rfloor>,
                                 resolution = res \<rparr>,
                             disk = disk (getRadarImage cfg mk flt r t0 radarId timestamp res d0),
                             downloads = 0, sizeCheck = False \<rparr>) ts)"
proof -
  let ?p = "cacheFile radarId timestamp res"
  let ?a = "age now (parseTimestamp mk timestamp)"
  let ?w = "rat_of_int CURRENT_IMAGE_REFRESH_INTERVAL / 1000"
  let ?hit = "\<lparr> reply = Inr \<lparr> buffer = content st, fromCache = True,
                               cacheAge = \<lfloor>age now (mtimeMs st)\<rfloor>,
                               imageAge = \<lfloor>?a\<rfloor>, resolution = res \<rparr>,
                disk = d, downloads = 0, sizeCheck = False \<rparr>"
  from found have inmap: "map_of d ?p = Some st" and nostat: "\<not> flt Stat ?p"
    unfolding fs_stat_def by (simp_all split: if_splits)
  have rd: "fs_readFile flt d ?p = Some (content st)"
    using inmap io unfolding fs_readFile_def by simp
  have hit: "getRadarImage cfg mk flt r now radarId timestamp res d = ?hit" if "?a < ?w"
    using getRadarImage_hit [OF sup lookupCache_hit [OF found rd live]] that by blast
  have absent: "map_of (remove_file ?p d) ?p = None" by (simp add: map_of_remove_file)
  have m1: "lookupCache cfg flt now d ?p ?a res = Miss (remove_file ?p d)" if "\<not> ?a < ?w"
    using lookupCache_stale [OF found io(2) live current that] .
  have m2: "lookupCache cfg flt now (remove_file ?p d) ?p ?a res = Miss (remove_file ?p d)"
    using lookupCache_absent [OF absent] .
  have eq: "getRadarImage cfg mk flt r now radarId timestamp res d
           = getRadarImage cfg mk flt r now radarId timestamp res (remove_file ?p d)"
    if "\<not> ?a < ?w"
    unfolding getRadarImage_miss [OF sup m1 [OF that]] getRadarImage_miss [OF sup m2] ..
  have nohit: "\<not> (\<exists>x. reply (getRadarImage cfg mk flt r now radarId timestamp res d) = Inr x
                  \<and> fromCache x)" if "\<not> ?a < ?w"
    unfolding getRadarImage_miss [OF sup m1 [OF that]] using fetchAndStore_not_cached by blast
  have iff: "(\<exists>x. reply (getRadarImage cfg mk flt r now radarId timestamp res d) = Inr x \<and> fromCache x)
          \<longleftrightarrow> ?a < ?w"
    using hit nohit by (cases "?a < ?w") auto
  have seq: "serve cfg mk flt r radarId timestamp res ts
                  (disk (getRadarImage cfg mk flt r t0 radarId timestamp res d0)) =
                map (\<lambda>t. \<lparr> reply = Inr \<lparr> buffer = buffer x0, fromCache = True,
                                 cacheAge = \<lfloor>age t t0\<rfloor>,
                                 imageAge = \<lfloor>age t (parseTimestamp mk timestamp)\<rfloor>,
                                 resolution = res \<rparr>,
                             disk = disk (getRadarImage cfg mk flt r t0 radarId timestamp res d0),
                             downloads = 0, sizeCheck = False \<rparr>) ts"
    if "reply (getRadarImage cfg mk flt r t0 radarId timestamp res d0) = Inr x0
            \<and> \<not> fromCache x0
            \<and> (\<forall>t\<in>set ts. age t t0 < of_int (DISK_CACHE_TTL cfg)
                  \<and> age t (parseTimestamp mk timestamp) < of_int CURRENT_IMAGE_REFRESH_INTERVAL / 1000)"
    for t0 d0 x0 ts
    using serve_after_download [where flt = flt and ?x0.0 = x0 and ts = ts, OF sup nostat io(1)] that
    by blast
  from iff hit m1 eq seq show ?thesis by blast
qed

theorem C1_witness:
  "getRadarImage default_config utcDate no_faults ex_remote 1729694340000 ''IDR023'' ''202410231430'' 64
     [(''IDR023_202410231430_64.png'', \<lparr> mtimeMs = 1729693860000, content = ''PNG'' \<rparr>)] =
   \<lparr> reply = Inr \<lparr> buffer = ''PNG'', fromCache = True, cacheAge = 480, imageAge = 540,
                    resolution = 64 \<rparr>,
     disk = [(''IDR023_202410231430_64.png'', \<lparr> mtimeMs = 1729693860000, content = ''PNG'' \<rparr>)],
     downloads = 0, sizeCheck = False \<rparr>"
proof -
  let ?d = "[(''IDR023_202410231430_64.png'', \<lparr> mtimeMs = 1729693860000, content = ''PNG'' \<rparr>)]"
  let ?st = "\<lparr> mtimeMs = 1729693860000, content = ''PNG'' \<rparr>"
  have h1: "(64::nat) \<in> set SUPPORTED_RESOLUTIONS"
    by (simp add: SUPPORTED_RESOLUTIONS_def)
  have h2: "fs_stat no_faults ?d (cacheFile ''IDR023'' ''202410231430'' 64) = Some ?st"
    by (simp add: fs_stat_def no_faults_simp cacheFile_64)
  have h3: "age 1729694340000 (mtimeMs ?st) < of_int (DISK_CACHE_TTL default_config)"
    by (simp add: age_def default_config_simps)
  have h4: "age 1729694340000 (parseTimestamp utcDate ''202410231430'') < of_int CURRENT_IMAGE_THRESHOLD"
    by (simp add: age_def ts_1430 CURRENT_IMAGE_THRESHOLD_def)
  have h5: "\<not> no_faults ReadFile (cacheFile ''IDR023'' ''202410231430'' 64)"
           "\<not> no_faults Unlink (cacheFile ''IDR023'' ''202410231430'' 64)"
    by (simp_all add: no_faults_simp)
  have w: "age 1729694340000 (parseTimestamp utcDate ''202410231430'')
             < of_int CURRENT_IMAGE_REFRESH_INTERVAL / 1000"
    by (simp add: age_def ts_1430 CURRENT_IMAGE_REFRESH_INTERVAL_def)
  from C1_current_usable_iff_content_age_in_window [OF h1 h2 h3 h4 h5, of ex_remote] w
  have "getRadarImage default_config utcDate no_faults ex_remote 1729694340000 ''IDR023''
          ''202410231430'' 64 ?d =
        \<lparr> reply = Inr \<lparr> buffer = content ?st, fromCache = True,
                         cacheAge = \<lfloor>age 1729694340000 (mtimeMs ?st)\<rfloor>,
                         imageAge = \<lfloor>age 1729694340000 (parseTimestamp utcDate ''202410231430'')\<rfloor>,
                         resolution = 64 \<rparr>,
          disk = ?d, downloads = 0, sizeCheck = False \<rparr>"
    by blast
  then show ?thesis by (simp add: age_def ts_1430)
qed

text \<open>
  In the standalone server \<^verbatim>\<open>src/server.js\<close> the same test is on the storage age,
  as claim C1 has it.
\<close>

lemma standalone_current_usable_iff_storage_age_in_window:
  assumes found: "fs_stat flt d (radarId @ ''_'' @ timestamp @ ''.png'') = Some st"
    and live: "age now (mtimeMs st) < of_int DISK_CACHE_TTL_standalone"
    and current: "age now (parseTimestamp mk timestamp) < of_int CURRENT_IMAGE_THRESHOLD"
    and io: "\<not> flt ReadFile (radarId @ ''_'' @ timestamp @ ''.png'')"
            "\<not> flt Unlink (radarId @ ''_'' @ timestamp @ ''.png'')"
  shows "(age now (mtimeMs st) < of_int CURRENT_IMAGE_REFRESH_INTERVAL / 1000 \<longrightarrow>
            getRadarImage_standalone mk flt r now radarId timestamp d =
              \<lparr> reply_s = Inr \<lparr> buffer = content st, fromCache = True,
                                 cacheAge = \<lfloor>age now (mtimeMs st)\<rfloor>,
                                 imageAge = \<lfloor>age now (parseTimestamp mk timestamp)\<rfloor> \<rparr>,
                disk_s = d, downloads_s = 0 \<rparr>)
       \<and> (\<not> age now (mtimeMs st) < of_int CURRENT_IMAGE_REFRESH_INTERVAL / 1000 \<longrightarrow>
            getRadarImage_standalone mk flt r now radarId timestamp d =
              fetchAndStore_standalone mk flt r now
                (remove_file (radarId @ ''_'' @ timestamp @ ''.png'') d) radarId timestamp
                (radarId @ ''_'' @ timestamp @ ''.png''))"
proof -
  let ?p = "radarId @ ''_'' @ timestamp @ ''.png''"
  from found have inmap: "map_of d ?p = Some st" and nf: "\<not> flt Stat ?p"
    unfolding fs_stat_def by (simp_all split: if_splits)
  have rd: "fs_readFile flt d ?p = Some (content st)"
    using inmap io unfolding fs_readFile_def by simp
  have ul: "fs_unlink flt d ?p = Some (remove_file ?p d)"
    using inmap io unfolding fs_unlink_def by simp
  show ?thesis
    using found rd ul live current unfolding getRadarImage_standalone_def
    by (simp add: Let_def)
qed

subsection \<open>The evictor: failures\<close>

lemma map_of_distinct_entry:
  "distinct (map fst d) \<Longrightarrow> e \<in> set d \<Longrightarrow> map_of d (fst e) = Some (snd e)"
  by (cases e) simp

lemma expire_untouched:
  "q \<notin> set files \<Longrightarrow> map_of (expire cfg flt now files d) q = map_of d q"
proof (induction files arbitrary: d)
  case Nil
  show ?case by simp
next
  case (Cons f files)
  then have q: "q \<noteq> f" "q \<notin> set files" by auto
  show ?case
    using Cons.IH [OF q(2)] q(1)
    by (auto simp: Let_def fs_unlink_def map_of_remove_file split: option.splits)
qed

lemma expire_stops_at_failed_stat:
  "endsWith f ''.png'' \<Longrightarrow> flt Stat f \<Longrightarrow>
     expire cfg flt now (pre @ f # post) d = expire cfg flt now pre d"
proof (induction pre arbitrary: d)
  case Nil
  then show ?case by (simp add: fs_stat_def)
next
  case (Cons a pre)
  then show ?case by (simp add: Let_def split: option.splits)
qed

lemma expire_stops_at_failed_unlink:
  "endsWith f ''.png'' \<Longrightarrow> flt Unlink f \<Longrightarrow> f \<notin> set pre \<Longrightarrow> map_of d f = Some st \<Longrightarrow>
   age now (mtimeMs st) > of_int (DISK_CACHE_TTL cfg) \<Longrightarrow>
     expire cfg flt now (pre @ f # post) d = expire cfg flt now pre d"
proof (induction pre arbitrary: d)
  case Nil
  then show ?case by (simp add: fs_stat_def fs_unlink_def Let_def)
next
  case (Cons a pre)
  then have a: "a \<noteq> f" "f \<notin> set pre" by auto
  have "expire cfg flt now (pre @ f # post) (remove_file a d) = expire cfg flt now pre (remove_file a d)"
    using Cons.IH [of "remove_file a d"] Cons.prems a by (simp add: map_of_remove_file)
  moreover have "expire cfg flt now (pre @ f # post) d = expire cfg flt now pre d"
    using Cons.IH [of d] Cons.prems a by simp
  ultimately show ?case
    by (simp add: Let_def fs_unlink_def split: option.splits)
qed

lemma cleanupCache_stops_at_failure:
  assumes names: "map fst d = pre @ f # post" and dist: "distinct (map fst d)"
    and png: "endsWith f ''.png''"
    and fails: "flt Stat f \<or> (flt Unlink f \<and>
                  (\<exists>st. map_of d f = Some st \<and> age now (mtimeMs st) > of_int (DISK_CACHE_TTL cfg)))"
    and q: "q \<in> set (f # post)"
  shows "map_of (cleanupCache cfg flt now d) q = map_of d q"
proof (cases "fs_readdir flt d")
  case None
  then show ?thesis by (simp add: cleanupCache_def)
next
  case (Some files)
  then have files: "files = pre @ f # post"
    using names by (simp add: fs_readdir_def split: if_splits)
  from dist names have fpre: "f \<notin> set pre" and qpre: "q \<notin> set pre"
    using q by auto
  have "expire cfg flt now (pre @ f # post) d = expire cfg flt now pre d"
    using fails expire_stops_at_failed_stat [OF png] expire_stops_at_failed_unlink [OF png _ fpre]
    by blast
  then show ?thesis
    using Some files expire_untouched [OF qpre] by (simp add: cleanupCache_def)
qed

lemma statAll_fails:
  "f \<in> set files \<Longrightarrow> endsWith f ''.png'' \<Longrightarrow> flt Stat f \<Longrightarrow>
     statAll flt d files t acc = None"
proof (induction files arbitrary: t acc)
  case Nil
  then show ?case by simp
next
  case (Cons a files)
  then show ?case by (auto simp: fs_stat_def split: option.splits)
qed

lemma checkCacheSize_failed_stat:
  assumes "f \<in> set (map fst d)" "endsWith f ''.png''" "flt Stat f"
  shows "checkCacheSize cfg flt d = d"
  using statAll_fails [where flt = flt and f = f and d = d and t = 0 and acc = "[]"] assms
  by (simp add: checkCacheSize_def fs_readdir_def)

lemma evict_untouched:
  "q \<notin> path ` set fs \<Longrightarrow> map_of (evict flt tgt tot freed fs d) q = map_of d q"
proof (induction fs arbitrary: freed d)
  case Nil
  show ?case by simp
next
  case (Cons f fs)
  then have q: "q \<noteq> path f" "q \<notin> path ` set fs" by auto
  show ?case
    using Cons.IH [OF q(2)] q(1)
    by (auto simp: fs_unlink_def map_of_remove_file split: option.splits)
qed

lemma evict_stops_at_failed_unlink:
  "flt Unlink (path f) \<Longrightarrow>
     evict flt tgt tot freed (pre @ f # post) d = evict flt tgt tot freed pre d"
proof (induction pre arbitrary: freed d)
  case Nil
  then show ?case by (simp add: fs_unlink_def)
next
  case (Cons a pre)
  then show ?case by (simp split: option.splits)
qed

lemma statAll_paths:
  "statAll flt d files t acc = Some (t', stats) \<Longrightarrow>
     map path stats = map path acc @ filter (\<lambda>f. endsWith f ''.png'') files"
proof (induction files arbitrary: t acc)
  case Nil
  then show ?case by simp
next
  case (Cons a files)
  show ?case
  proof (cases "endsWith a ''.png''")
    case False
    with Cons show ?thesis by simp
  next
    case True
    with Cons.prems obtain st where st: "fs_stat flt d a = Some st"
      by (auto split: option.splits)
    with True Cons.prems Cons.IH show ?thesis by simp
  qed
qed

lemma distinct_paths_sorted:
  assumes "distinct (map path stats)"
  shows "distinct (map path (sort_key mtime stats))"
proof -
  have "mset (map path (sort_key mtime stats)) = mset (map path stats)" by simp
  then show ?thesis using assms mset_eq_imp_distinct_iff by blast
qed

lemma checkCacheSize_stops_at_failed_unlink:
  assumes dist: "distinct (map fst d)"
    and stats: "statAll flt d (map fst d) 0 [] = Some (tot, stats)"
    and order: "sort_key mtime stats = pre @ f # post"
    and fails: "flt Unlink (path f)"
    and q: "q \<in> path ` set (f # post)"
  shows "map_of (checkCacheSize cfg flt d) q = map_of d q"
proof -
  have "map path stats = filter (\<lambda>f. endsWith f ''.png'') (map fst d)"
    using statAll_paths [OF stats] by simp
  with dist have "distinct (map path stats)" by simp
  from distinct_paths_sorted [OF this] order have "distinct (map path (pre @ f # post))" by simp
  with q have qpre: "q \<notin> path ` set pre" by (auto simp: image_iff)
  show ?thesis
  proof (cases "fs_readdir flt d")
    case None
    then show ?thesis by (simp add: checkCacheSize_def)
  next
    case (Some files)
    then have "files = map fst d" by (simp add: fs_readdir_def split: if_splits)
    with Some stats order show ?thesis
      using evict_stops_at_failed_unlink [where flt = flt and f = f, OF fails] evict_untouched [OF qpre]
      by (simp add: checkCacheSize_def Let_def)
  qed
qed

text \<open>
  Claim C2. After the hourly sweep every object whose storage age is at least
  \<open>DISK_CACHE_TTL\<close> is gone. At a storage age of exactly \<open>DISK_CACHE_TTL\<close>
  the sweep, which tests \<^verbatim>\<open>age > DISK_CACHE_TTL\<close>, keeps the object, while
  \<^verbatim>\<open>getRadarImage\<close>, which tests \<^verbatim>\<open>fileCacheAge >= DISK_CACHE_TTL\<close>, takes the same
  object at the same instant for expired.
\<close>

theorem C2_object_at_exact_ttl_survives_sweep:
  "age 1729792800000 1729706400000 \<ge> of_int (DISK_CACHE_TTL default_config)
   \<and> cleanupCache default_config no_faults 1729792800000
        [(''IDR023_202410230000_64.png'', \<lparr> mtimeMs = 1729706400000, content = ''PNG'' \<rparr>)]
      = [(''IDR023_202410230000_64.png'', \<lparr> mtimeMs = 1729706400000, content = ''PNG'' \<rparr>)]
   \<and> lookupCache default_config no_faults 1729792800000
        [(''IDR023_202410230000_64.png'', \<lparr> mtimeMs = 1729706400000, content = ''PNG'' \<rparr>)]
        ''IDR023_202410230000_64.png'' (age 1729792800000 1729641600000) 64
      = Miss []"
  by (simp add: cleanupCache_def fs_readdir_def fs_stat_def fs_unlink_def no_faults_simp
        endsWith_def age_def default_config_simps lookupCache_def remove_file_def Let_def)

theorem C2_witness:
  "map_of (cleanupCache default_config no_faults 1729792800000
        [(''IDR023_202410230000_64.png'', \<lparr> mtimeMs = 1729706400000, content = ''PNG'' \<rparr>)])
      ''IDR023_202410230000_64.png''
     = Some \<lparr> mtimeMs = 1729706400000, content = ''PNG'' \<rparr>"
  using C2_object_at_exact_ttl_survives_sweep by simp

subsection \<open>The evictor: the size budget\<close>

lemma statAll_all:
  assumes "\<forall>p. \<not> flt Stat p" "\<forall>e\<in>set d2. map_of d (fst e) = Some (snd e)"
  shows "statAll flt d (map fst d2) t acc =
           Some (t + storeSize d2, acc @ map stat_of (pngs d2))"
  using assms(2)
proof (induction d2 arbitrary: t acc)
  case Nil
  show ?case by (simp add: storeSize_def pngs_def)
next
  case (Cons e d2)
  then have e: "map_of d (fst e) = Some (snd e)"
    and rest: "\<forall>e\<in>set d2. map_of d (fst e) = Some (snd e)" by auto
  show ?case
  proof (cases "endsWith (fst e) ''.png''")
    case False
    then show ?thesis using Cons.IH [OF rest] by (simp add: storeSize_def pngs_def)
  next
    case True
    then show ?thesis
      using Cons.IH [OF rest] e assms(1)
      by (simp add: storeSize_def pngs_def fs_stat_def stat_of_def)
  qed
qed

lemma statAll_directory:
  assumes "\<forall>p. \<not> flt Stat p" "distinct (map fst d)"
  shows "statAll flt d (map fst d) 0 [] = Some (storeSize d, map stat_of (pngs d))"
  using statAll_all [where flt = flt and d = d and ?d2.0 = d and t = 0 and acc = "[]"]
    assms(1) map_of_distinct_entry [OF assms(2)]
  by simp

lemma remove_file_filter:
  "filter (\<lambda>e. fst e \<notin> P) (remove_file p d) = filter (\<lambda>e. fst e \<notin> insert p P) d"
  unfolding remove_file_def by (induction d) auto

lemma evict_prefix_upto:
  "distinct (map path fs) \<Longrightarrow> \<forall>f\<in>set fs. map_of d (path f) \<noteq> None \<Longrightarrow>
   \<forall>f\<in>set fs. \<not> flt Unlink (path f) \<Longrightarrow>
     \<exists>k\<le>length fs.
        evict flt tgt tot freed fs d = filter (\<lambda>e. fst e \<notin> path ` set (take k fs)) d
      \<and> (\<forall>j<k. of_nat tot - of_nat (freed + sum_list (map fsize (take j fs))) > tgt)
      \<and> (k < length fs \<longrightarrow> of_nat tot - of_nat (freed + sum_list (map fsize (take k fs))) \<le> tgt)"
proof (induction fs arbitrary: freed d)
  case Nil
  show ?case by simp
next
  case (Cons f fs)
  show ?case
  proof (cases "of_nat tot - of_nat freed \<le> tgt")
    case True
    then have "evict flt tgt tot freed (f # fs) d = filter (\<lambda>e. fst e \<notin> path ` set (take 0 (f # fs))) d
      \<and> (\<forall>j<0::nat. of_nat tot - of_nat (freed + sum_list (map fsize (take j (f # fs)))) > tgt)
      \<and> (0 < length (f # fs) \<longrightarrow> of_nat tot - of_nat (freed + sum_list (map fsize (take 0 (f # fs)))) \<le> tgt)"
      by simp
    then show ?thesis by blast
  next
    case False
    let ?d' = "remove_file (path f) d"
    from Cons.prems have pf: "map_of d (path f) \<noteq> None" and uf: "\<not> flt Unlink (path f)" by simp_all
    then have step: "evict flt tgt tot freed (f # fs) d = evict flt tgt tot (freed + fsize f) fs ?d'"
      using False by (auto simp: fs_unlink_def)
    from Cons.prems have d1: "distinct (map path fs)" and nf: "path f \<notin> path ` set fs"
      and u1: "\<forall>g\<in>set fs. \<not> flt Unlink (path g)" by auto
    have "\<forall>g\<in>set fs. map_of ?d' (path g) \<noteq> None"
    proof
      fix g assume g: "g \<in> set fs"
      with nf have "path g \<noteq> path f" by (metis imageI)
      with g Cons.prems(2) show "map_of ?d' (path g) \<noteq> None"
        by (simp add: map_of_remove_file)
    qed
    from Cons.IH [OF d1 this u1, of "freed + fsize f"]
    obtain k where k: "k \<le> length fs"
      and res: "evict flt tgt tot (freed + fsize f) fs ?d' =
                  filter (\<lambda>e. fst e \<notin> path ` set (take k fs)) ?d'"
      and above: "\<forall>j<k. of_nat tot - of_nat (freed + fsize f + sum_list (map fsize (take j fs))) > tgt"
      and below: "k < length fs \<longrightarrow>
                   of_nat tot - of_nat (freed + fsize f + sum_list (map fsize (take k fs))) \<le> tgt"
      by blast
    have a: "evict flt tgt tot freed (f # fs) d =
               filter (\<lambda>e. fst e \<notin> path ` set (take (Suc k) (f # fs))) d"
      using step res by (simp add: remove_file_filter)
    have b: "\<forall>j<Suc k. of_nat tot - of_nat (freed + sum_list (map fsize (take j (f # fs)))) > tgt"
    proof (intro allI impI)
      fix j assume j: "j < Suc k"
      show "of_nat tot - of_nat (freed + sum_list (map fsize (take j (f # fs)))) > tgt"
      proof (cases j)
        case 0
        then show ?thesis using False by simp
      next
        case (Suc j')
        with j above show ?thesis by (simp add: add.assoc)
      qed
    qed
    have c: "Suc k < length (f # fs) \<longrightarrow>
               of_nat tot - of_nat (freed + sum_list (map fsize (take (Suc k) (f # fs)))) \<le> tgt"
      using below by (simp add: add.assoc)
    from k a b c show ?thesis
      by (intro exI [of _ "Suc k"]) simp
  qed
qed

lemma sum_list_filter_mset:
  assumes "mset xs = mset ys"
  shows "sum_list (map f (filter P xs)) = (sum_list (map f (filter P ys)) :: nat)"
proof -
  have "mset (map f (filter P xs)) = mset (map f (filter P ys))"
    by (simp add: assms)
  then show ?thesis by (metis sum_mset_sum_list)
qed

lemma filter_take_distinct:
  assumes "distinct (map g xs)"
  shows "filter (\<lambda>s. g s \<notin> g ` set (take k xs)) xs = drop k xs"
proof -
  have "xs = take k xs @ drop k xs" by simp
  moreover have "filter (\<lambda>s. g s \<notin> g ` set (take k xs)) (take k xs) = []"
    by (auto simp: filter_empty_conv)
  moreover have "filter (\<lambda>s. g s \<notin> g ` set (take k xs)) (drop k xs) = drop k xs"
  proof -
    have "distinct (map g (take k xs) @ map g (drop k xs))"
      using assms by (metis append_take_drop_id map_append)
    then have "g ` set (take k xs) \<inter> g ` set (drop k xs) = {}" by auto
    then show ?thesis by (auto simp: filter_id_conv)
  qed
  ultimately show ?thesis by (metis filter_append append_Nil)
qed

lemma pngs_filter: "pngs (filter Q d) = filter Q (pngs d)"
  unfolding pngs_def by (induction d) auto

lemma storeSize_after_prefix:
  assumes dist: "distinct (map fst d)"
  shows "storeSize (filter (\<lambda>e. fst e \<notin> path ` set (take k (oldestFirst d))) d)
           + sum_list (map fsize (take k (oldestFirst d))) = storeSize d"
proof -
  let ?S = "map stat_of (pngs d)"
  let ?o = "oldestFirst d"
  let ?P = "path ` set (take k ?o)"
  have perm: "mset ?S = mset ?o" by (simp add: oldestFirst_def)
  have "map path ?S = filter (\<lambda>f. endsWith f ''.png'') (map fst d)"
    by (simp add: pngs_def stat_of_def filter_map comp_def)
  with dist have "distinct (map path ?S)" by simp
  then have dpo: "distinct (map path ?o)"
    unfolding oldestFirst_def by (rule distinct_paths_sorted)
  have "map stat_of (pngs (filter (\<lambda>e. fst e \<notin> ?P) d)) = filter (\<lambda>s. path s \<notin> ?P) ?S"
    by (simp add: pngs_filter filter_map comp_def stat_of_def)
  then have "storeSize (filter (\<lambda>e. fst e \<notin> ?P) d) = sum_list (map fsize (filter (\<lambda>s. path s \<notin> ?P) ?S))"
    by (simp add: storeSize_def)
  also have "\<dots> = sum_list (map fsize (filter (\<lambda>s. path s \<notin> ?P) ?o))"
    using sum_list_filter_mset [OF perm] .
  also have "\<dots> = sum_list (map fsize (drop k ?o))"
    using filter_take_distinct [OF dpo] by simp
  finally have rem: "storeSize (filter (\<lambda>e. fst e \<notin> ?P) d) = sum_list (map fsize (drop k ?o))" .
  have "storeSize d = sum_list (map fsize ?o)"
    using sum_list_filter_mset [OF perm, of fsize "\<lambda>_. True"] by (simp add: storeSize_def)
  also have "\<dots> = sum_list (map fsize (take k ?o)) + sum_list (map fsize (drop k ?o))"
    by (metis append_take_drop_id map_append sum_list_append)
  finally show ?thesis using rem by simp
qed

lemma oldestFirst_sorted:
  "x \<in> set (take k (oldestFirst d)) \<Longrightarrow> y \<in> set (drop k (oldestFirst d)) \<Longrightarrow> mtime x \<le> mtime y"
proof -
  have "sorted (map mtime (take k (oldestFirst d) @ drop k (oldestFirst d)))"
    by (simp add: oldestFirst_def)
  then show "x \<in> set (take k (oldestFirst d)) \<Longrightarrow> y \<in> set (drop k (oldestFirst d)) \<Longrightarrow> mtime x \<le> mtime y"
    unfolding map_append sorted_append by auto
qed

lemma checkCacheSize_evict:
  assumes dist: "distinct (map fst d)"
    and io: "\<not> flt Readdir []" "\<forall>p. \<not> flt Stat p"
  shows "checkCacheSize cfg flt d =
           (if (of_nat (storeSize d) :: rat) / 1024 / 1024 > of_int (MAX_CACHE_SIZE_MB cfg)
            then evict flt (targetSize_of cfg) (storeSize d) 0 (oldestFirst d) d else d)"
  using statAll_directory [where flt = flt, OF io(2) dist] io(1)
  by (simp add: checkCacheSize_def fs_readdir_def oldestFirst_def Let_def)

lemma oldestFirst_present:
  assumes dist: "distinct (map fst d)" and f: "f \<in> set (oldestFirst d)"
  shows "map_of d (path f) \<noteq> None"
proof -
  from f obtain e where e: "e \<in> set d" and "f = stat_of e"
    by (auto simp: oldestFirst_def pngs_def)
  then have "path f = fst e" by (simp add: stat_of_def)
  with map_of_distinct_entry [OF dist e] show ?thesis by simp
qed

lemma oldestFirst_distinct:
  assumes dist: "distinct (map fst d)"
  shows "distinct (map path (oldestFirst d))"
proof -
  have "map path (map stat_of (pngs d)) = filter (\<lambda>f. endsWith f ''.png'') (map fst d)"
    by (simp add: pngs_def stat_of_def filter_map comp_def)
  with dist have "distinct (map path (map stat_of (pngs d)))" by simp
  then show ?thesis unfolding oldestFirst_def by (rule distinct_paths_sorted)
qed

lemma storeSize_oldestFirst: "storeSize d = sum_list (map fsize (oldestFirst d))"
proof -
  have "mset (map stat_of (pngs d)) = mset (oldestFirst d)" by (simp add: oldestFirst_def)
  from sum_list_filter_mset [OF this, of fsize "\<lambda>_. True"] show ?thesis
    by (simp add: storeSize_def)
qed

lemma expire_prefix_filter:
  assumes "\<forall>e\<in>set d2. \<not> flt Stat (fst e) \<and> \<not> flt Unlink (fst e)"
  shows "\<forall>e\<in>set d2. map_of d (fst e) = Some (snd e) \<Longrightarrow> distinct (map fst d2) \<Longrightarrow>
     expire cfg flt now (map fst d2) d =
       filter (\<lambda>e. fst e \<notin> fst ` {x \<in> set d2. endsWith (fst x) ''.png''
                      \<and> age now (mtimeMs (snd x)) > of_int (DISK_CACHE_TTL cfg)}) d"
  using assms
proof (induction d2 arbitrary: d)
  case Nil
  show ?case by simp
next
  case (Cons e d2)
  let ?X = "\<lambda>l. fst ` {x \<in> set l. endsWith (fst x) ''.png''
                      \<and> age now (mtimeMs (snd x)) > of_int (DISK_CACHE_TTL cfg)}"
  from Cons.prems have here: "map_of d (fst e) = Some (snd e)"
    and rest: "\<forall>x\<in>set d2. map_of d (fst x) = Some (snd x)"
    and dist: "distinct (map fst d2)" and fresh: "fst e \<notin> fst ` set d2"
    and ok: "\<not> flt Stat (fst e)" "\<not> flt Unlink (fst e)"
    and oks: "\<forall>x\<in>set d2. \<not> flt Stat (fst x) \<and> \<not> flt Unlink (fst x)"
    by auto
  have stat: "fs_stat flt d (fst e) = Some (snd e)"
    using here ok by (simp add: fs_stat_def)
  show ?case
  proof (cases "endsWith (fst e) ''.png'' \<and> age now (mtimeMs (snd e)) > of_int (DISK_CACHE_TTL cfg)")
    case True
    let ?d' = "remove_file (fst e) d"
    have unl: "fs_unlink flt d (fst e) = Some ?d'"
      using here ok by (simp add: fs_unlink_def)
    have "\<forall>x\<in>set d2. map_of ?d' (fst x) = Some (snd x)"
    proof
      fix x assume x: "x \<in> set d2"
      with fresh have "fst x \<noteq> fst e" by (metis imageI)
      with x rest show "map_of ?d' (fst x) = Some (snd x)" by (simp add: map_of_remove_file)
    qed
    from Cons.IH [OF this dist oks]
    have "expire cfg flt now (map fst d2) ?d' = filter (\<lambda>x. fst x \<notin> ?X d2) ?d'" .
    moreover have "?X (e # d2) = insert (fst e) (?X d2)" using True by auto
    ultimately show ?thesis
      using True stat unl by (simp add: Let_def remove_file_filter)
  next
    case False
    have "?X (e # d2) = ?X d2" using False by auto
    moreover have "expire cfg flt now (map fst (e # d2)) d = expire cfg flt now (map fst d2) d"
      using False stat by (auto simp: Let_def)
    ultimately show ?thesis using Cons.IH [OF rest dist oks] by simp
  qed
qed

lemma entry_unique:
  assumes "distinct (map fst d)" "x \<in> set d" "e \<in> set d" "fst x = fst e"
  shows "x = e"
proof -
  have "map_of d (fst x) = Some (snd x)" "map_of d (fst e) = Some (snd e)"
    using map_of_distinct_entry [OF assms(1)] assms(2,3) by simp_all
  with assms(4) have "snd x = snd e" by simp
  with assms(4) show ?thesis by (simp add: prod_eq_iff)
qed

lemma cleanupCache_up_to_failure:
  assumes names: "map fst d = pre @ f # post" and dist: "distinct (map fst d)"
    and png: "endsWith f ''.png''"
    and fails: "flt Stat f \<or> (flt Unlink f \<and>
                  (\<exists>st. map_of d f = Some st \<and> age now (mtimeMs st) > of_int (DISK_CACHE_TTL cfg)))"
    and dirok: "\<not> flt Readdir []"
    and before: "\<forall>q\<in>set pre. \<not> flt Stat q \<and> \<not> flt Unlink q"
  shows "cleanupCache cfg flt now d =
           filter (\<lambda>e. \<not> (fst e \<in> set pre \<and> endsWith (fst e) ''.png''
                          \<and> age now (mtimeMs (snd e)) > of_int (DISK_CACHE_TTL cfg))) d"
proof -
  let ?d2 = "take (length pre) d"
  let ?P = "\<lambda>x. endsWith (fst x) ''.png'' \<and> age now (mtimeMs (snd x)) > of_int (DISK_CACHE_TTL cfg)"
  have "map fst ?d2 = take (length pre) (map fst d)" by (simp add: take_map)
  then have pre: "map fst ?d2 = pre" using names by simp
  then have preset: "set pre = fst ` set ?d2" by (metis list.set_map)
  have sub: "set ?d2 \<subseteq> set d" by (rule set_take_subset)
  from dist names have fpre: "f \<notin> set pre" by auto
  have stop: "expire cfg flt now (pre @ f # post) d = expire cfg flt now pre d"
    using fails expire_stops_at_failed_stat [OF png] expire_stops_at_failed_unlink [OF png _ fpre]
    by blast
  have a1: "\<forall>e\<in>set ?d2. \<not> flt Stat (fst e) \<and> \<not> flt Unlink (fst e)"
    using before unfolding preset by blast
  have a2: "\<forall>e\<in>set ?d2. map_of d (fst e) = Some (snd e)"
    using map_of_distinct_entry [OF dist] sub by blast
  have "distinct (take (length pre) (map fst d))" using dist by (rule distinct_take)
  then have a3: "distinct (map fst ?d2)" by (simp add: take_map)
  have run: "expire cfg flt now pre d = filter (\<lambda>e. fst e \<notin> fst ` {x \<in> set ?d2. ?P x}) d"
    using expire_prefix_filter [OF a1 a2 a3, of cfg now] pre by simp
  have same: "(fst e \<notin> fst ` {x \<in> set ?d2. ?P x}) = (\<not> (fst e \<in> set pre \<and> ?P e))"
    if e: "e \<in> set d" for e
  proof -
    have "fst e \<in> fst ` {x \<in> set ?d2. ?P x} \<longleftrightarrow> fst e \<in> set pre \<and> ?P e"
    proof
      assume "fst e \<in> fst ` {x \<in> set ?d2. ?P x}"
      then obtain x where x: "x \<in> set ?d2" "?P x" "fst e = fst x" by auto
      with sub have "x \<in> set d" by blast
      from entry_unique [OF dist this e] x(3) have xe: "x = e" by simp
      from x(1) have "fst x \<in> fst ` set ?d2" by (rule imageI)
      then have "fst e \<in> set pre" unfolding preset xe .
      moreover from x(2) have "?P e" unfolding xe .
      ultimately show "fst e \<in> set pre \<and> ?P e" by (rule conjI)
    next
      assume r: "fst e \<in> set pre \<and> ?P e"
      then have "fst e \<in> fst ` set ?d2" unfolding preset by (rule conjunct1)
      then obtain x where x: "x \<in> set ?d2" "fst x = fst e" by (auto simp only: image_iff)
      with sub have "x \<in> set d" by blast
      from entry_unique [OF dist this e x(2)] have "x = e" .
      with x(1) have "e \<in> set ?d2" by simp
      with r have "e \<in> {x \<in> set ?d2. ?P x}" by simp
      then show "fst e \<in> fst ` {x \<in> set ?d2. ?P x}" by (rule imageI)
    qed
    then show ?thesis by simp
  qed
  have "cleanupCache cfg flt now d = expire cfg flt now pre d"
    using names dirok stop by (simp add: cleanupCache_def fs_readdir_def)
  also have "\<dots> = filter (\<lambda>e. fst e \<notin> fst ` {x \<in> set ?d2. ?P x}) d"
    by (rule run)
  also have "\<dots> = filter (\<lambda>e. \<not> (fst e \<in> set pre \<and> ?P e)) d"
    by (rule filter_cong [OF refl]) (rule same)
  finally show ?thesis .
qed

lemma checkCacheSize_up_to_failure:
  assumes dist: "distinct (map fst d)"
    and io: "\<not> flt Readdir []" "\<forall>p. \<not> flt Stat p"
    and over: "(of_nat (storeSize d) :: rat) / 1024 / 1024 > of_int (MAX_CACHE_SIZE_MB cfg)"
    and order: "oldestFirst d = pre @ f # post"
    and fails: "flt Unlink (path f)"
    and before: "\<forall>g\<in>set pre. \<not> flt Unlink (path g)"
  shows "\<exists>k\<le>length pre.
           checkCacheSize cfg flt d = filter (\<lambda>e. fst e \<notin> path ` set (take k pre)) d
         \<and> (\<forall>j<k. (of_nat (storeSize d) :: rat) - of_nat (sum_list (map fsize (take j pre)))
                    > of_int (MAX_CACHE_SIZE_MB cfg) * (4 / 5) * 1024 * 1024)
         \<and> (k < length pre \<longrightarrow>
              (of_nat (storeSize d) :: rat) - of_nat (sum_list (map fsize (take k pre)))
                \<le> of_int (MAX_CACHE_SIZE_MB cfg) * (4 / 5) * 1024 * 1024)"
proof -
  have tgt: "targetSize_of cfg = of_int (MAX_CACHE_SIZE_MB cfg) * (4 / 5) * 1024 * 1024"
    by (simp add: targetSize_of_def)
  have run: "checkCacheSize cfg flt d = evict flt (targetSize_of cfg) (storeSize d) 0 (pre @ f # post) d"
    using checkCacheSize_evict [where flt = flt, OF dist io] over order by simp
  also have "\<dots> = evict flt (targetSize_of cfg) (storeSize d) 0 pre d"
    using evict_stops_at_failed_unlink [where flt = flt and f = f, OF fails] .
  finally have eq: "checkCacheSize cfg flt d = evict flt (targetSize_of cfg) (storeSize d) 0 pre d" .
  have dpre: "distinct (map path pre)"
    using oldestFirst_distinct [OF dist] order by simp
  have present: "\<forall>g\<in>set pre. map_of d (path g) \<noteq> None"
    using oldestFirst_present [OF dist] order by simp
  from evict_prefix_upto [where flt = flt, OF dpre present before, of "targetSize_of cfg" "storeSize d" 0]
  show ?thesis unfolding eq tgt by simp
qed

text \<open>
  Claim C3, as stated: a failure on one file is skipped and the sweep goes on with the
  other files. Here \<^verbatim>\<open>stat\<close> raises on the first of two expired objects, and the
  second, on which nothing fails, is still there after the sweep; without the failure
  both are deleted.
\<close>

theorem C3_counterexample:
  "age 1729900000000 1729706400000 > of_int (DISK_CACHE_TTL default_config)
   \<and> \<not> ex_stat_fault Stat ''IDR023_202410230006_64.png''
   \<and> \<not> ex_stat_fault Unlink ''IDR023_202410230006_64.png''
   \<and> cleanupCache default_config ex_stat_fault 1729900000000
        [(''IDR023_202410230000_64.png'', \<lparr> mtimeMs = 1729706400000, content = ''PNG'' \<rparr>),
         (''IDR023_202410230006_64.png'', \<lparr> mtimeMs = 1729706400000, content = ''PNG'' \<rparr>)]
      = [(''IDR023_202410230000_64.png'', \<lparr> mtimeMs = 1729706400000, content = ''PNG'' \<rparr>),
         (''IDR023_202410230006_64.png'', \<lparr> mtimeMs = 1729706400000, content = ''PNG'' \<rparr>)]
   \<and> cleanupCache default_config no_faults 1729900000000
        [(''IDR023_202410230000_64.png'', \<lparr> mtimeMs = 1729706400000, content = ''PNG'' \<rparr>),
         (''IDR023_202410230006_64.png'', \<lparr> mtimeMs = 1729706400000, content = ''PNG'' \<rparr>)]
      = []"
  by (simp add: cleanupCache_def fs_readdir_def fs_stat_def fs_unlink_def no_faults_simp
        ex_stat_fault_def endsWith_def age_def default_config_simps remove_file_def Let_def)

text \<open>
  Claim C3, amended. The \<^verbatim>\<open>try\<close> of each sweep encloses its loops, so a failure on
  one file ends the sweep: the deletions made before it stand, and the failing file and
  every file after it are left as they were in that run.
  \<^item> In the hourly sweep, when \<^verbatim>\<open>stat\<close> of \<open>f\<close> raises, or \<open>f\<close> is expired and
    its \<^verbatim>\<open>unlink\<close> raises, \<open>f\<close> and the files listed after it are untouched.
  \<^item> When this is the first failure of the hourly sweep, the directory afterwards is
    the directory before without the expired objects listed before \<open>f\<close>.
  \<^item> In the size sweep, when \<^verbatim>\<open>stat\<close> of any object raises, nothing is deleted.
  \<^item> In the size sweep, when \<^verbatim>\<open>unlink\<close> of \<open>f\<close> raises, \<open>f\<close> and the files
    after it in the sorted order are untouched.
  \<^item> When this is the first failure of a size sweep over a store above the budget, the
    directory afterwards is the directory before without the first \<open>k\<close> of the
    objects older than \<open>f\<close>, where \<open>k\<close> is the least number of them that brings
    the total to four fifths of the budget, or all of them when no number does.
\<close>

theorem C3_failure_ends_the_sweep:
  assumes dist: "distinct (map fst d)"
  shows "(\<forall>pre f post q. map fst d = pre @ f # post \<and> endsWith f ''.png''
            \<and> (flt Stat f \<or> (flt Unlink f \<and>
                  (\<exists>st. map_of d f = Some st \<and> age now (mtimeMs st) > of_int (DISK_CACHE_TTL cfg))))
            \<and> q \<in> set (f # post)
            \<longrightarrow> map_of (cleanupCache cfg flt now d) q = map_of d q)
       \<and> (\<forall>pre f post. map fst d = pre @ f # post \<and> endsWith f ''.png''
            \<and> (flt Stat f \<or> (flt Unlink f \<and>
                  (\<exists>st. map_of d f = Some st \<and> age now (mtimeMs st) > of_int (DISK_CACHE_TTL cfg))))
            \<and> \<not> flt Readdir [] \<and> (\<forall>q\<in>set pre. \<not> flt Stat q \<and> \<not> flt Unlink q)
            \<longrightarrow> cleanupCache cfg flt now d =
                  filter (\<lambda>e. \<not> (fst e \<in> set pre \<and> endsWith (fst e) ''.png''
                                 \<and> age now (mtimeMs (snd e)) > of_int (DISK_CACHE_TTL cfg))) d)
       \<and> (\<forall>f. f \<in> set (map fst d) \<and> endsWith f ''.png'' \<and> flt Stat f
            \<longrightarrow> checkCacheSize cfg flt d = d)
       \<and> (\<forall>tot stats pre f post q.
              statAll flt d (map fst d) 0 [] = Some (tot, stats)
            \<and> sort_key mtime stats = pre @ f # post \<and> flt Unlink (path f)
            \<and> q \<in> path ` set (f # post)
            \<longrightarrow> map_of (checkCacheSize cfg flt d) q = map_of d q)
       \<and> (\<forall>pre f post.
              \<not> flt Readdir [] \<and> (\<forall>p. \<not> flt Stat p)
            \<and> (of_nat (storeSize d) :: rat) / 1024 / 1024 > of_int (MAX_CACHE_SIZE_MB cfg)
            \<and> oldestFirst d = pre @ f # post \<and> flt Unlink (path f)
            \<and> (\<forall>g\<in>set pre. \<not> flt Unlink (path g))
            \<longrightarrow> (\<exists>k\<le>length pre.
                   checkCacheSize cfg flt d = filter (\<lambda>e. fst e \<notin> path ` set (take k pre)) d
                 \<and> (\<forall>j<k. (of_nat (storeSize d) :: rat) - of_nat (sum_list (map fsize (take j pre)))
                            > of_int (MAX_CACHE_SIZE_MB cfg) * (4 / 5) * 1024 * 1024)
                 \<and> (k < length pre \<longrightarrow>
                      (of_nat (storeSize d) :: rat) - of_nat (sum_list (map fsize (take k pre)))
                        \<le> of_int (MAX_CACHE_SIZE_MB cfg) * (4 / 5) * 1024 * 1024)))"
proof (intro conjI allI impI)
  fix pre f post q
  assume "map fst d = pre @ f # post \<and> endsWith f ''.png''
            \<and> (flt Stat f \<or> (flt Unlink f \<and>
                  (\<exists>st. map_of d f = Some st \<and> age now (mtimeMs st) > of_int (DISK_CACHE_TTL cfg))))
            \<and> q \<in> set (f # post)"
  then show "map_of (cleanupCache cfg flt now d) q = map_of d q"
    using cleanupCache_stops_at_failure [where flt = flt and f = f and pre = pre and post = post, OF _ dist]
    by blast
next
  fix pre f post
  assume "map fst d = pre @ f # post \<and> endsWith f ''.png''
            \<and> (flt Stat f \<or> (flt Unlink f \<and>
                  (\<exists>st. map_of d f = Some st \<and> age now (mtimeMs st) > of_int (DISK_CACHE_TTL cfg))))
            \<and> \<not> flt Readdir [] \<and> (\<forall>q\<in>set pre. \<not> flt Stat q \<and> \<not> flt Unlink q)"
  then show "cleanupCache cfg flt now d =
                  filter (\<lambda>e. \<not> (fst e \<in> set pre \<and> endsWith (fst e) ''.png''
                                 \<and> age now (mtimeMs (snd e)) > of_int (DISK_CACHE_TTL cfg))) d"
    using cleanupCache_up_to_failure [where flt = flt and f = f and pre = pre and post = post, OF _ dist]
    by blast
next
  fix f
  assume "f \<in> set (map fst d) \<and> endsWith f ''.png'' \<and> flt Stat f"
  then show "checkCacheSize cfg flt d = d"
    using checkCacheSize_failed_stat [where flt = flt and f = f] by blast
next
  fix tot stats pre f post q
  assume "statAll flt d (map fst d) 0 [] = Some (tot, stats)
            \<and> sort_key mtime stats = pre @ f # post \<and> flt Unlink (path f)
            \<and> q \<in> path ` set (f # post)"
  then show "map_of (checkCacheSize cfg flt d) q = map_of d q"
    using checkCacheSize_stops_at_failed_unlink [where flt = flt and f = f and pre = pre and post = post, OF dist]
    by blast
next
  fix pre f post
  assume "\<not> flt Readdir [] \<and> (\<forall>p. \<not> flt Stat p)
            \<and> (of_nat (storeSize d) :: rat) / 1024 / 1024 > of_int (MAX_CACHE_SIZE_MB cfg)
            \<and> oldestFirst d = pre @ f # post \<and> flt Unlink (path f)
            \<and> (\<forall>g\<in>set pre. \<not> flt Unlink (path g))"
  then show "\<exists>k\<le>length pre.
                   checkCacheSize cfg flt d = filter (\<lambda>e. fst e \<notin> path ` set (take k pre)) d
                 \<and> (\<forall>j<k. (of_nat (storeSize d) :: rat) - of_nat (sum_list (map fsize (take j pre)))
                            > of_int (MAX_CACHE_SIZE_MB cfg) * (4 / 5) * 1024 * 1024)
                 \<and> (k < length pre \<longrightarrow>
                      (of_nat (storeSize d) :: rat) - of_nat (sum_list (map fsize (take k pre)))
                        \<le> of_int (MAX_CACHE_SIZE_MB cfg) * (4 / 5) * 1024 * 1024)"
    using checkCacheSize_up_to_failure [where flt = flt and f = f and pre = pre and post = post, OF dist]
    by blast
qed

lemma ex_store2_size: "storeSize ex_store2 = 1400000"
  by (simp add: storeSize_def pngs_def ex_store2_def endsWith_def stat_of_def)

lemma ex_store2_oldestFirst:
  "oldestFirst ex_store2 =
     [\<lparr> path = ''IDR023_202410230006_64.png'', fsize = 300000, mtime = 1729706401000 \<rparr>] @
     \<lparr> path = ''IDR023_202410230000_64.png'', fsize = 600000, mtime = 1729706402000 \<rparr> #
     [\<lparr> path = ''IDR023_202410230012_64.png'', fsize = 500000, mtime = 1729706403000 \<rparr>]"
  by (simp add: oldestFirst_def pngs_def ex_store2_def endsWith_def stat_of_def)

theorem C3_witness:
  "cleanupCache default_config ex_stat_fault 1729900000000 ex_expired =
     [(''IDR023_202410230000_64.png'', \<lparr> mtimeMs = 1729706400000, content = ''PNG'' \<rparr>),
      (''IDR023_202410230012_64.png'', \<lparr> mtimeMs = 1729706400000, content = ''PNG'' \<rparr>)]
   \<and> checkCacheSize ex_small_config ex_stat_fault ex_store = ex_store
   \<and> checkCacheSize ex_small_config ex_unlink_fault ex_store2 =
     [(''IDR023_202410230000_64.png'', \<lparr> mtimeMs = 1729706402000, content = replicate 600000 (CHR ''x'') \<rparr>),
      (''IDR023_202410230012_64.png'', \<lparr> mtimeMs = 1729706403000, content = replicate 500000 (CHR ''x'') \<rparr>)]"
proof -
  have h: "distinct (map fst ex_expired)" by (simp add: ex_expired_def)
  have a: "map fst ex_expired = [''IDR023_202410230006_64.png''] @ ''IDR023_202410230000_64.png''
                # [''IDR023_202410230012_64.png'']
            \<and> endsWith ''IDR023_202410230000_64.png'' ''.png''
            \<and> (ex_stat_fault Stat ''IDR023_202410230000_64.png'' \<or>
                 (ex_stat_fault Unlink ''IDR023_202410230000_64.png'' \<and>
                  (\<exists>st. map_of ex_expired ''IDR023_202410230000_64.png'' = Some st
                     \<and> age 1729900000000 (mtimeMs st) > of_int (DISK_CACHE_TTL default_config))))
            \<and> \<not> ex_stat_fault Readdir []
            \<and> (\<forall>q\<in>set [''IDR023_202410230006_64.png''].
                  \<not> ex_stat_fault Stat q \<and> \<not> ex_stat_fault Unlink q)"
    by (simp add: endsWith_def ex_stat_fault_def ex_expired_def)
  note ttl = C3_failure_ends_the_sweep [OF h, where flt = ex_stat_fault and now = 1729900000000 and cfg = default_config,
      THEN conjunct2, THEN conjunct1, rule_format]
  from ttl [where pre = "[''IDR023_202410230006_64.png'']" and f = "''IDR023_202410230000_64.png''"
      and post = "[''IDR023_202410230012_64.png'']", OF a]
  have "cleanupCache default_config ex_stat_fault 1729900000000 ex_expired =
          filter (\<lambda>e. \<not> (fst e \<in> set [''IDR023_202410230006_64.png''] \<and> endsWith (fst e) ''.png''
                          \<and> age 1729900000000 (mtimeMs (snd e)) > of_int (DISK_CACHE_TTL default_config)))
            ex_expired" .
  then have one: "cleanupCache default_config ex_stat_fault 1729900000000 ex_expired =
     [(''IDR023_202410230000_64.png'', \<lparr> mtimeMs = 1729706400000, content = ''PNG'' \<rparr>),
      (''IDR023_202410230012_64.png'', \<lparr> mtimeMs = 1729706400000, content = ''PNG'' \<rparr>)]"
    by (simp add: ex_expired_def endsWith_def age_def default_config_simps)
  have hs: "distinct (map fst ex_store)" by (simp add: ex_store_def)
  have b: "''IDR023_202410230000_64.png'' \<in> set (map fst ex_store)
            \<and> endsWith ''IDR023_202410230000_64.png'' ''.png''
            \<and> ex_stat_fault Stat ''IDR023_202410230000_64.png''"
    by (simp add: ex_store_def endsWith_def ex_stat_fault_def)
  note scan = C3_failure_ends_the_sweep [OF hs, where flt = ex_stat_fault and cfg = ex_small_config,
      THEN conjunct2, THEN conjunct2, THEN conjunct1, rule_format]
  from scan [OF b]
  have two: "checkCacheSize ex_small_config ex_stat_fault ex_store = ex_store" .
  let ?g = "\<lparr> path = ''IDR023_202410230006_64.png'', fsize = 300000, mtime = 1729706401000 \<rparr>"
  let ?f = "\<lparr> path = ''IDR023_202410230000_64.png'', fsize = 600000, mtime = 1729706402000 \<rparr>"
  let ?post = "[\<lparr> path = ''IDR023_202410230012_64.png'', fsize = 500000, mtime = 1729706403000 \<rparr>]"
  have h2: "distinct (map fst ex_store2)" by (simp add: ex_store2_def)
  have c: "\<not> ex_unlink_fault Readdir [] \<and> (\<forall>p. \<not> ex_unlink_fault Stat p)
            \<and> (of_nat (storeSize ex_store2) :: rat) / 1024 / 1024
                 > of_int (MAX_CACHE_SIZE_MB ex_small_config)
            \<and> oldestFirst ex_store2 = [?g] @ ?f # ?post \<and> ex_unlink_fault Unlink (path ?f)
            \<and> (\<forall>g\<in>set [?g]. \<not> ex_unlink_fault Unlink (path g))"
    using ex_store2_oldestFirst
    by (simp add: ex_unlink_fault_def ex_store2_size ex_small_config_simps)
  note size = C3_failure_ends_the_sweep [OF h2, where flt = ex_unlink_fault and cfg = ex_small_config,
      THEN conjunct2, THEN conjunct2, THEN conjunct2, THEN conjunct2, rule_format]
  from size [where pre = "[?g]" and f = ?f and post = ?post, OF c]
  obtain k where k: "k \<le> length [?g]"
    and res: "checkCacheSize ex_small_config ex_unlink_fault ex_store2
                = filter (\<lambda>e. fst e \<notin> path ` set (take k [?g])) ex_store2"
    and below: "k < length [?g] \<longrightarrow>
                  (of_nat (storeSize ex_store2) :: rat) - of_nat (sum_list (map fsize (take k [?g])))
                    \<le> of_int (MAX_CACHE_SIZE_MB ex_small_config) * (4 / 5) * 1024 * 1024"
    by blast
  have "k \<noteq> 0"
  proof
    assume "k = 0"
    with below show False by (simp add: ex_store2_size ex_small_config_simps)
  qed
  with k have "k = 1" by simp
  with res have three: "checkCacheSize ex_small_config ex_unlink_fault ex_store2 =
     [(''IDR023_202410230000_64.png'', \<lparr> mtimeMs = 1729706402000, content = replicate 600000 (CHR ''x'') \<rparr>),
      (''IDR023_202410230012_64.png'', \<lparr> mtimeMs = 1729706403000, content = replicate 500000 (CHR ''x'') \<rparr>)]"
    by (simp add: ex_store2_def)
  from one two three show ?thesis by simp
qed

text \<open>
  Claim C4. With no file operation failing and a budget that is not negative: when the
  store exceeds \<open>MAX_CACHE_SIZE_MB\<close>, the size sweep deletes a prefix of length
  \<open>k\<close> of the objects in oldest-first order and nothing else; the store that is left
  is at most \<open>MAX_CACHE_SIZE_MB \<times> 4/5 \<times> 1024 \<times> 1024\<close> bytes; before each
  deletion the total still exceeded that target, so the prefix is the shortest that
  reaches it; and no deleted object is younger than an object that remains. When the
  store does not exceed \<open>MAX_CACHE_SIZE_MB\<close> the sweep deletes nothing.
\<close>

theorem C4_size_sweep_deletes_minimal_oldest_prefix:
  assumes dist: "distinct (map fst d)"
    and io: "\<not> flt Readdir []" "\<forall>p. \<not> flt Stat p" "\<forall>p. \<not> flt Unlink p"
    and budget: "0 \<le> MAX_CACHE_SIZE_MB cfg"
  shows "((of_nat (storeSize d) :: rat) / 1024 / 1024 > of_int (MAX_CACHE_SIZE_MB cfg) \<longrightarrow>
          (\<exists>k\<le>length (oldestFirst d).
              checkCacheSize cfg flt d
                = filter (\<lambda>e. fst e \<notin> path ` set (take k (oldestFirst d))) d
            \<and> storeSize (checkCacheSize cfg flt d)
                + sum_list (map fsize (take k (oldestFirst d))) = storeSize d
            \<and> (of_nat (storeSize (checkCacheSize cfg flt d)) :: rat)
                \<le> of_int (MAX_CACHE_SIZE_MB cfg) * (4 / 5) * 1024 * 1024
            \<and> (\<forall>j<k. (of_nat (storeSize d) :: rat)
                        - of_nat (sum_list (map fsize (take j (oldestFirst d))))
                      > of_int (MAX_CACHE_SIZE_MB cfg) * (4 / 5) * 1024 * 1024)
            \<and> (\<forall>x\<in>set (take k (oldestFirst d)). \<forall>y\<in>set (drop k (oldestFirst d)).
                  mtime x \<le> mtime y)))
       \<and> (\<not> (of_nat (storeSize d) :: rat) / 1024 / 1024 > of_int (MAX_CACHE_SIZE_MB cfg) \<longrightarrow>
            checkCacheSize cfg flt d = d)"
proof (intro conjI impI)
  assume "\<not> (of_nat (storeSize d) :: rat) / 1024 / 1024 > of_int (MAX_CACHE_SIZE_MB cfg)"
  then show "checkCacheSize cfg flt d = d"
    using checkCacheSize_evict [where flt = flt, OF dist io(1) io(2)] by simp
next
  let ?o = "oldestFirst d"
  let ?tgt = "targetSize_of cfg"
  assume over: "(of_nat (storeSize d) :: rat) / 1024 / 1024 > of_int (MAX_CACHE_SIZE_MB cfg)"
  then have run: "checkCacheSize cfg flt d = evict flt ?tgt (storeSize d) 0 ?o d"
    using checkCacheSize_evict [where flt = flt, OF dist io(1) io(2)] by simp
  have present: "\<forall>f\<in>set ?o. map_of d (path f) \<noteq> None"
    using oldestFirst_present [OF dist] by blast
  have unl: "\<forall>f\<in>set ?o. \<not> flt Unlink (path f)" using io(3) by simp
  from evict_prefix_upto [where flt = flt, OF oldestFirst_distinct [OF dist] present unl,
      of ?tgt "storeSize d" 0]
  obtain k where k: "k \<le> length ?o"
    and res: "evict flt ?tgt (storeSize d) 0 ?o d = filter (\<lambda>e. fst e \<notin> path ` set (take k ?o)) d"
    and above: "\<forall>j<k. of_nat (storeSize d) - of_nat (0 + sum_list (map fsize (take j ?o))) > ?tgt"
    and below: "k < length ?o \<longrightarrow>
                  of_nat (storeSize d) - of_nat (0 + sum_list (map fsize (take k ?o))) \<le> ?tgt"
    by blast
  have eq: "checkCacheSize cfg flt d = filter (\<lambda>e. fst e \<notin> path ` set (take k ?o)) d"
    using run res by simp
  have size: "storeSize (checkCacheSize cfg flt d) + sum_list (map fsize (take k ?o)) = storeSize d"
    unfolding eq using storeSize_after_prefix [OF dist] .
  have tgt0: "0 \<le> ?tgt" using budget by (simp add: targetSize_of_def)
  have reached: "of_nat (storeSize (checkCacheSize cfg flt d)) \<le> ?tgt"
  proof (cases "k < length ?o")
    case True
    with below have "of_nat (storeSize d) - of_nat (sum_list (map fsize (take k ?o))) \<le> ?tgt"
      by simp
    moreover have "(of_nat (storeSize d) :: rat)
                     = of_nat (storeSize (checkCacheSize cfg flt d)
                                 + sum_list (map fsize (take k ?o)))"
      using size by simp
    ultimately show ?thesis by simp
  next
    case False
    with k have "take k ?o = ?o" by simp
    moreover have "storeSize d = sum_list (map fsize ?o)"
      by (rule storeSize_oldestFirst)
    ultimately have "storeSize (checkCacheSize cfg flt d) = 0" using size by simp
    with tgt0 show ?thesis by simp
  qed
  have older: "\<forall>x\<in>set (take k ?o). \<forall>y\<in>set (drop k ?o). mtime x \<le> mtime y"
    using oldestFirst_sorted by blast
  have tgt: "?tgt = of_int (MAX_CACHE_SIZE_MB cfg) * (4 / 5) * 1024 * 1024"
    by (simp add: targetSize_of_def)
  from k eq size reached above older
  have "\<exists>k\<le>length ?o.
              checkCacheSize cfg flt d = filter (\<lambda>e. fst e \<notin> path ` set (take k ?o)) d
            \<and> storeSize (checkCacheSize cfg flt d) + sum_list (map fsize (take k ?o)) = storeSize d
            \<and> of_nat (storeSize (checkCacheSize cfg flt d)) \<le> ?tgt
            \<and> (\<forall>j<k. of_nat (storeSize d) - of_nat (sum_list (map fsize (take j ?o))) > ?tgt)
            \<and> (\<forall>x\<in>set (take k ?o). \<forall>y\<in>set (drop k ?o). mtime x \<le> mtime y)"
    by (intro exI [of _ k]) simp
  then show "\<exists>k\<le>length ?o.
              checkCacheSize cfg flt d = filter (\<lambda>e. fst e \<notin> path ` set (take k ?o)) d
            \<and> storeSize (checkCacheSize cfg flt d) + sum_list (map fsize (take k ?o)) = storeSize d
            \<and> (of_nat (storeSize (checkCacheSize cfg flt d)) :: rat)
                \<le> of_int (MAX_CACHE_SIZE_MB cfg) * (4 / 5) * 1024 * 1024
            \<and> (\<forall>j<k. (of_nat (storeSize d) :: rat) - of_nat (sum_list (map fsize (take j ?o)))
                      > of_int (MAX_CACHE_SIZE_MB cfg) * (4 / 5) * 1024 * 1024)
            \<and> (\<forall>x\<in>set (take k ?o). \<forall>y\<in>set (drop k ?o). mtime x \<le> mtime y)"
    unfolding tgt .
qed

lemma ex_store_size: "storeSize ex_store = 1400000"
  by (simp add: storeSize_def pngs_def ex_store_def endsWith_def stat_of_def)

lemma ex_store_oldestFirst:
  "oldestFirst ex_store =
     [\<lparr> path = ''IDR023_202410230000_64.png'', fsize = 600000, mtime = 1729706401000 \<rparr>,
      \<lparr> path = ''IDR023_202410230006_64.png'', fsize = 500000, mtime = 1729706402000 \<rparr>,
      \<lparr> path = ''IDR023_202410230012_64.png'', fsize = 300000, mtime = 1729706403000 \<rparr>]"
  by (simp add: oldestFirst_def pngs_def ex_store_def endsWith_def stat_of_def)

lemma ex_store_swept:
  "checkCacheSize ex_small_config no_faults ex_store =
     [(''IDR023_202410230006_64.png'', \<lparr> mtimeMs = 1729706402000, content = replicate 500000 (CHR ''x'') \<rparr>),
      (''IDR023_202410230012_64.png'', \<lparr> mtimeMs = 1729706403000, content = replicate 300000 (CHR ''x'') \<rparr>)]"
proof -
  have "distinct (map fst ex_store)" by (simp add: ex_store_def)
  from checkCacheSize_evict [OF this, of no_faults ex_small_config]
  show ?thesis
    by (simp add: no_faults_simp ex_store_size ex_small_config_simps ex_store_oldestFirst
          fs_unlink_def) (simp add: ex_store_def remove_file_def)
qed

theorem C4_witness:
  "(of_nat (storeSize ex_store) :: rat) / 1024 / 1024 > of_int (MAX_CACHE_SIZE_MB ex_small_config)
   \<and> checkCacheSize ex_small_config no_faults ex_store =
     [(''IDR023_202410230006_64.png'', \<lparr> mtimeMs = 1729706402000, content = replicate 500000 (CHR ''x'') \<rparr>),
      (''IDR023_202410230012_64.png'', \<lparr> mtimeMs = 1729706403000, content = replicate 300000 (CHR ''x'') \<rparr>)]
   \<and> (of_nat (storeSize (checkCacheSize ex_small_config no_faults ex_store)) :: rat) \<le> 4194304 / 5"
proof -
  let ?o = "oldestFirst ex_store"
  have h1: "distinct (map fst ex_store)" by (simp add: ex_store_def)
  have h2: "\<not> no_faults Readdir []" "\<forall>p. \<not> no_faults Stat p" "\<forall>p. \<not> no_faults Unlink p"
    by (simp_all add: no_faults_simp)
  have h3: "0 \<le> MAX_CACHE_SIZE_MB ex_small_config" by (simp add: ex_small_config_simps)
  have over: "(of_nat (storeSize ex_store) :: rat) / 1024 / 1024
                > of_int (MAX_CACHE_SIZE_MB ex_small_config)"
    by (simp add: ex_store_size ex_small_config_simps)
  note sweep = C4_size_sweep_deletes_minimal_oldest_prefix [where flt = no_faults and cfg = ex_small_config,
      OF h1 h2 h3, THEN conjunct1, THEN mp, OF over]
  from sweep obtain k where k: "k \<le> length ?o"
    and res: "checkCacheSize ex_small_config no_faults ex_store
                = filter (\<lambda>e. fst e \<notin> path ` set (take k ?o)) ex_store"
    and reached: "(of_nat (storeSize (checkCacheSize ex_small_config no_faults ex_store)) :: rat)
                    \<le> of_int (MAX_CACHE_SIZE_MB ex_small_config) * (4 / 5) * 1024 * 1024"
    and size: "storeSize (checkCacheSize ex_small_config no_faults ex_store)
                 + sum_list (map fsize (take k ?o)) = storeSize ex_store"
    and above: "\<forall>j<k. (of_nat (storeSize ex_store) :: rat)
                        - of_nat (sum_list (map fsize (take j ?o)))
                      > of_int (MAX_CACHE_SIZE_MB ex_small_config) * (4 / 5) * 1024 * 1024"
    by blast
  have "k \<noteq> 0"
  proof
    assume "k = 0"
    with size have "storeSize (checkCacheSize ex_small_config no_faults ex_store) = 1400000"
      by (simp add: ex_store_size)
    with reached show False by (simp add: ex_small_config_simps)
  qed
  moreover have "\<not> 1 < k"
  proof
    assume "1 < k"
    with above have "(of_nat (storeSize ex_store) :: rat)
                        - of_nat (sum_list (map fsize (take 1 ?o)))
                      > of_int (MAX_CACHE_SIZE_MB ex_small_config) * (4 / 5) * 1024 * 1024"
      by blast
    then show False by (simp add: ex_store_size ex_store_oldestFirst ex_small_config_simps)
  qed
  ultimately have "k = 1" by simp
  with res have result: "checkCacheSize ex_small_config no_faults ex_store =
     [(''IDR023_202410230006_64.png'', \<lparr> mtimeMs = 1729706402000, content = replicate 500000 (CHR ''x'') \<rparr>),
      (''IDR023_202410230012_64.png'', \<lparr> mtimeMs = 1729706403000, content = replicate 300000 (CHR ''x'') \<rparr>)]"
    by (simp add: ex_store_oldestFirst) (simp add: ex_store_def)
  from reached have "(of_nat (storeSize (checkCacheSize ex_small_config no_faults ex_store)) :: rat)
                       \<le> 4194304 / 5"
    by (simp add: ex_small_config_simps)
  with over result show ?thesis by simp
qed

subsection \<open>Listing and the rate limiter\<close>

lemma resolution_cases:
  "RESOLUTION_SUFFIX res = Some s \<Longrightarrow> res = 64 \<or> res = 128 \<or> res = 256 \<or> res = 512"
  unfolding RESOLUTION_SUFFIX_def by (simp split: if_splits)

lemma dec_resolution_inj:
  assumes "RESOLUTION_SUFFIX a = Some sa" "RESOLUTION_SUFFIX b = Some sb" "a \<noteq> b"
  shows "dec a \<noteq> dec b"
  using resolution_cases [OF assms(1)] resolution_cases [OF assms(2)] assms(3)
  by (auto simp: dec_64 dec_128 dec_256 dec_512)

lemma blocked_wait_positive:
  assumes "\<not> canRefreshTimestamps cfg st now radarId"
  shows "0 < getTimeUntilNextRefresh cfg st now radarId"
proof -
  from assms obtain l where l: "lastTimestampRefresh st radarId = Some l" "l \<noteq> 0"
    and lt: "now - l < TIMESTAMP_REFRESH_INTERVAL cfg"
    unfolding canRefreshTimestamps_def by (auto simp: Let_def split: option.splits if_splits)
  then have "0 < (of_int (TIMESTAMP_REFRESH_INTERVAL cfg - (now - l)) :: rat) / 1000" by simp
  then have "0 < \<lceil>(of_int (TIMESTAMP_REFRESH_INTERVAL cfg - (now - l)) :: rat) / 1000\<rceil>"
    by (simp only: zero_less_ceiling)
  with l show ?thesis unfolding getTimeUntilNextRefresh_def by (simp add: Let_def)
qed

lemma listing_success:
  assumes "listReply (listAvailableTimestamps cfg r now radarId res maxResults force st) = Inr x"
    and "\<not> listFromCache x"
  shows "\<exists>suffix items. RESOLUTION_SUFFIX res = Some suffix \<and> connectFTP r = None
           \<and> ftp_list r FTP_PATH = Inr items
           \<and> x = \<lparr> timestamps = extractTimestamps radarId suffix maxResults items,
                    listFromCache = False,
                    nextRefreshIn = of_int (TIMESTAMP_REFRESH_INTERVAL cfg) / 1000,
                    rateLimited = None \<rparr>
           \<and> listAvailableTimestamps cfg r now radarId res maxResults force st =
               \<lparr> listReply = Inr x,
                 metaAfter = updateTimestampRefreshTime
                   (nc_set cfg st now (''timestamps_'' @ radarId @ ''_'' @ dec res)
                      (extractTimestamps radarId suffix maxResults items)) now radarId,
                 connects = 1 \<rparr>"
  using assms unfolding listAvailableTimestamps_def
  by (auto simp: Let_def split: option.splits if_splits sum.splits)

lemma nc_get_after_set:
  "key' \<noteq> key \<Longrightarrow>
     nc_get (updateTimestampRefreshTime (nc_set cfg st now key v) now' radarId) t key' = nc_get st t key'"
  unfolding nc_get_def nc_set_def updateTimestampRefreshTime_def by (simp add: Let_def)

lemma lastRefresh_after_update:
  "lastTimestampRefresh (updateTimestampRefreshTime (nc_set cfg st now key v) now' radarId) radarId
     = Some now'"
  unfolding nc_set_def updateTimestampRefreshTime_def by (simp add: Let_def)

lemma ex_listing:
  "extractTimestamps ''IDR023'' ''1'' 20
     [\<lparr> etype = CHR ''-'', name = ''IDR0231.T.202410231430.png'' \<rparr>] = [''202410231430'']"
  by code_simp

lemma ex_first_listing:
  "listAvailableTimestamps default_config ex_remote 1729693860000 ''IDR023'' 64 20 True empty_meta =
     \<lparr> listReply = Inr \<lparr> timestamps = [''202410231430''], listFromCache = False,
                          nextRefreshIn = 600, rateLimited = None \<rparr>,
       metaAfter = ex_meta, connects = 1 \<rparr>"
  by (simp add: listAvailableTimestamps_def RESOLUTION_SUFFIX_def dec_64 ex_remote_def FTP_PATH_def
        ex_listing nc_set_def updateTimestampRefreshTime_def empty_meta_def ex_meta_def
        default_config_simps Let_def)

text \<open>
  Claim C6, as stated: while the limiter blocks a refresh, a cached set is returned
  tagged \<open>rateLimited = true\<close>. Five minutes after a listing the limiter blocks, the
  set is cached, and the call returns it from the first branch of
  \<^verbatim>\<open>listAvailableTimestamps\<close>, without the tag.
\<close>

theorem C6_counterexample:
  "\<not> canRefreshTimestamps default_config ex_meta 1729694160000 ''IDR023''
   \<and> nc_get ex_meta 1729694160000 ''timestamps_IDR023_64'' = Some [''202410231430'']
   \<and> listReply (listAvailableTimestamps default_config ex_remote 1729694160000 ''IDR023'' 64 20
                  False ex_meta)
      = Inr \<lparr> timestamps = [''202410231430''], listFromCache = True, nextRefreshIn = 300,
              rateLimited = None \<rparr>"
  by (simp add: listAvailableTimestamps_def RESOLUTION_SUFFIX_def dec_64 nc_get_def ex_meta_def
        canRefreshTimestamps_def getTimeUntilNextRefresh_def default_config_simps Let_def)

text \<open>
  Claim C6, amended. For a valid resolution:
  \<^item> a call without \<open>force\<close> made while the limiter blocks a refresh has a positive
    wait time; when a cached set exists for the queried key the call returns it from
    the cache with that wait time and without the tag \<open>rateLimited\<close> (the route then
    reports \<^verbatim>\<open>false\<close>); when none exists the call fails with the rate-limit error
    carrying the wait time in seconds;
  \<^item> a call with \<open>force\<close> connects to the origin whatever the limiter says, and
    returns the fresh listing when the origin answers.
\<close>

theorem C6_rate_limited_listing:
  assumes valid: "RESOLUTION_SUFFIX res = Some suffix"
  shows "(\<not> force \<and> \<not> canRefreshTimestamps cfg st now radarId \<longrightarrow>
            0 < getTimeUntilNextRefresh cfg st now radarId
          \<and> (\<forall>ts. nc_get st now (''timestamps_'' @ radarId @ ''_'' @ dec res) = Some ts \<longrightarrow>
                listAvailableTimestamps cfg r now radarId res maxResults force st =
                  \<lparr> listReply = Inr \<lparr> timestamps = ts, listFromCache = True,
                        nextRefreshIn = of_int (getTimeUntilNextRefresh cfg st now radarId),
                        rateLimited = None \<rparr>,
                    metaAfter = st, connects = 0 \<rparr>)
          \<and> (nc_get st now (''timestamps_'' @ radarId @ ''_'' @ dec res) = None \<longrightarrow>
                listAvailableTimestamps cfg r now radarId res maxResults force st =
                  \<lparr> listReply = Inl (RateLimit (getTimeUntilNextRefresh cfg st now radarId) radarId),
                    metaAfter = st, connects = 0 \<rparr>))
       \<and> (force \<longrightarrow>
            connects (listAvailableTimestamps cfg r now radarId res maxResults force st) = 1
          \<and> (\<forall>items. connectFTP r = None \<and> ftp_list r FTP_PATH = Inr items \<longrightarrow>
                listReply (listAvailableTimestamps cfg r now radarId res maxResults force st) =
                  Inr \<lparr> timestamps = extractTimestamps radarId suffix maxResults items,
                        listFromCache = False,
                        nextRefreshIn = of_int (TIMESTAMP_REFRESH_INTERVAL cfg) / 1000,
                        rateLimited = None \<rparr>))"
  using valid blocked_wait_positive [of cfg st now radarId]
  unfolding listAvailableTimestamps_def
  by (auto simp: Let_def split: option.splits sum.splits)

theorem C6_witness:
  "listAvailableTimestamps default_config ex_remote 1729694160000 ''IDR023'' 64 20 False ex_meta =
     \<lparr> listReply = Inr \<lparr> timestamps = [''202410231430''], listFromCache = True,
                          nextRefreshIn = 300, rateLimited = None \<rparr>,
       metaAfter = ex_meta, connects = 0 \<rparr>
   \<and> listAvailableTimestamps default_config ex_remote 1729694160000 ''IDR023'' 128 20 False ex_meta =
     \<lparr> listReply = Inl (RateLimit 300 ''IDR023''), metaAfter = ex_meta, connects = 0 \<rparr>
   \<and> listReply (listAvailableTimestamps default_config ex_remote 1729694160000 ''IDR023'' 64 20 True
        ex_meta) =
     Inr \<lparr> timestamps = [''202410231430''], listFromCache = False, nextRefreshIn = 600,
           rateLimited = None \<rparr>"
proof -
  have v64: "RESOLUTION_SUFFIX 64 = Some ''1''" and v128: "RESOLUTION_SUFFIX 128 = Some ''2''"
    by (simp_all add: RESOLUTION_SUFFIX_def)
  have blocked: "\<not> canRefreshTimestamps default_config ex_meta 1729694160000 ''IDR023''"
    by (simp add: canRefreshTimestamps_def ex_meta_def default_config_simps)
  have wait: "getTimeUntilNextRefresh default_config ex_meta 1729694160000 ''IDR023'' = 300"
    by (simp add: getTimeUntilNextRefresh_def ex_meta_def default_config_simps)
  have c64: "nc_get ex_meta 1729694160000 (''timestamps_'' @ ''IDR023'' @ ''_'' @ dec 64)
               = Some [''202410231430'']"
    by (simp add: nc_get_def ex_meta_def dec_64)
  have c128: "nc_get ex_meta 1729694160000 (''timestamps_'' @ ''IDR023'' @ ''_'' @ dec 128) = None"
    by (simp add: nc_get_def ex_meta_def dec_128)
  have origin: "connectFTP ex_remote = None
      \<and> ftp_list ex_remote FTP_PATH
          = Inr [\<lparr> etype = CHR ''-'', name = ''IDR0231.T.202410231430.png'' \<rparr>]"
    by (simp add: ex_remote_def)
  have a: "listAvailableTimestamps default_config ex_remote 1729694160000 ''IDR023'' 64 20 False ex_meta =
     \<lparr> listReply = Inr \<lparr> timestamps = [''202410231430''], listFromCache = True,
                          nextRefreshIn = 300, rateLimited = None \<rparr>,
       metaAfter = ex_meta, connects = 0 \<rparr>"
    using C6_rate_limited_listing [OF v64, of False default_config ex_meta 1729694160000 "''IDR023''"
        ex_remote 20] blocked c64 wait by simp
  have b: "listAvailableTimestamps default_config ex_remote 1729694160000 ''IDR023'' 128 20 False ex_meta =
     \<lparr> listReply = Inl (RateLimit 300 ''IDR023''), metaAfter = ex_meta, connects = 0 \<rparr>"
    using C6_rate_limited_listing [OF v128, of False default_config ex_meta 1729694160000 "''IDR023''"
        ex_remote 20] blocked c128 wait by simp
  have c: "listReply (listAvailableTimestamps default_config ex_remote 1729694160000 ''IDR023'' 64 20 True
        ex_meta) =
     Inr \<lparr> timestamps = [''202410231430''], listFromCache = False, nextRefreshIn = 600,
           rateLimited = None \<rparr>"
    using C6_rate_limited_listing [OF v64, of True default_config ex_meta 1729694160000 "''IDR023''"
        ex_remote 20] origin by (simp add: ex_listing default_config_simps)
  from a b c show ?thesis by simp
qed

text \<open>
  Claim C9. The limiter is keyed by the radar id and the cached sets by radar id and
  resolution: after a successful listing for resolution \<open>resA\<close> at \<open>t0\<close>, a call
  without \<open>force\<close> for another resolution \<open>resB\<close> of the same radar, less than
  \<open>TIMESTAMP_REFRESH_INTERVAL\<close> later and with no cached set for \<open>resB\<close>, fails
  with the rate-limit error and does not connect to the origin.
\<close>

theorem C9_limiter_shared_across_resolutions:
  assumes A: "RESOLUTION_SUFFIX resA = Some sa" and B: "RESOLUTION_SUFFIX resB = Some sb"
    and neq: "resA \<noteq> resB"
    and first: "listReply (listAvailableTimestamps cfg r t0 radarId resA maxA forceA st) = Inr x"
               "\<not> listFromCache x"
    and t0: "t0 \<noteq> 0"
    and within: "t1 - t0 < TIMESTAMP_REFRESH_INTERVAL cfg"
    and uncached: "nc_get st t1 (''timestamps_'' @ radarId @ ''_'' @ dec resB) = None"
  shows "listAvailableTimestamps cfg r' t1 radarId resB maxB False
           (metaAfter (listAvailableTimestamps cfg r t0 radarId resA maxA forceA st)) =
         \<lparr> listReply = Inl (RateLimit
               \<lceil>(of_int (TIMESTAMP_REFRESH_INTERVAL cfg - (t1 - t0)) :: rat) / 1000\<rceil> radarId),
           metaAfter = metaAfter (listAvailableTimestamps cfg r t0 radarId resA maxA forceA st),
           connects = 0 \<rparr>"
proof -
  let ?keyA = "''timestamps_'' @ radarId @ ''_'' @ dec resA"
  let ?keyB = "''timestamps_'' @ radarId @ ''_'' @ dec resB"
  from listing_success [OF first] obtain v where
    after: "metaAfter (listAvailableTimestamps cfg r t0 radarId resA maxA forceA st) =
              updateTimestampRefreshTime (nc_set cfg st t0 ?keyA v) t0 radarId"
    by auto
  let ?st = "updateTimestampRefreshTime (nc_set cfg st t0 ?keyA v) t0 radarId"
  have keys: "?keyB \<noteq> ?keyA" using dec_resolution_inj [OF B A] neq by simp
  have cached: "nc_get ?st t1 ?keyB = None"
    using nc_get_after_set [OF keys] uncached by simp
  have last: "lastTimestampRefresh ?st radarId = Some t0"
    by (rule lastRefresh_after_update)
  have blocked: "\<not> canRefreshTimestamps cfg ?st t1 radarId"
    using last t0 within unfolding canRefreshTimestamps_def by (simp add: Let_def)
  have "0 < (of_int (TIMESTAMP_REFRESH_INTERVAL cfg - (t1 - t0)) :: rat) / 1000"
    using within by simp
  then have "0 < \<lceil>(of_int (TIMESTAMP_REFRESH_INTERVAL cfg - (t1 - t0)) :: rat) / 1000\<rceil>"
    by (simp only: zero_less_ceiling)
  then have wait: "getTimeUntilNextRefresh cfg ?st t1 radarId =
                \<lceil>(of_int (TIMESTAMP_REFRESH_INTERVAL cfg - (t1 - t0)) :: rat) / 1000\<rceil>"
    using last t0 unfolding getTimeUntilNextRefresh_def by (simp add: Let_def)
  show ?thesis
    unfolding after using B cached blocked wait
    unfolding listAvailableTimestamps_def by (simp add: Let_def)
qed

theorem C9_witness:
  "listAvailableTimestamps default_config ex_broken 1729694160000 ''IDR023'' 128 20 False
     (metaAfter (listAvailableTimestamps default_config ex_remote 1729693860000 ''IDR023'' 64 20
        True empty_meta)) =
   \<lparr> listReply = Inl (RateLimit 300 ''IDR023''),
     metaAfter = metaAfter (listAvailableTimestamps default_config ex_remote 1729693860000
        ''IDR023'' 64 20 True empty_meta),
     connects = 0 \<rparr>"
proof -
  have v64: "RESOLUTION_SUFFIX 64 = Some ''1''" and v128: "RESOLUTION_SUFFIX 128 = Some ''2''"
    by (simp_all add: RESOLUTION_SUFFIX_def)
  have neq: "(64::nat) \<noteq> 128" by simp
  have first: "listReply (listAvailableTimestamps default_config ex_remote 1729693860000 ''IDR023''
                 64 20 True empty_meta)
               = Inr \<lparr> timestamps = [''202410231430''], listFromCache = False,
                       nextRefreshIn = 600, rateLimited = None \<rparr>"
    by (simp add: ex_first_listing)
  have fresh: "\<not> listFromCache \<lparr> timestamps = [''202410231430''], listFromCache = False,
                       nextRefreshIn = 600, rateLimited = None \<rparr>"
    by simp
  have t0: "(1729693860000::int) \<noteq> 0" by simp
  have within: "(1729694160000::int) - 1729693860000 < TIMESTAMP_REFRESH_INTERVAL default_config"
    by (simp add: default_config_simps)
  have uncached: "nc_get empty_meta 1729694160000 (''timestamps_'' @ ''IDR023'' @ ''_'' @ dec 128) = None"
    by (simp add: nc_get_def empty_meta_def)
  from C9_limiter_shared_across_resolutions [OF v64 v128 neq first fresh t0 within uncached,
      of ex_broken 20]
  show ?thesis by (simp add: default_config_simps)
qed

text \<open>
  Claim C10. Every successful remote listing, forced or not, stamps the radar's last
  refresh with the instant of the call and reports
  \<open>TIMESTAMP_REFRESH_INTERVAL / 1000\<close> seconds until the next refresh; after it a
  refresh without \<open>force\<close> is allowed exactly from a full interval after that
  instant on, and the wait time read at once is the interval in seconds.
\<close>

theorem C10_successful_listing_restarts_interval:
  assumes ok: "listReply (listAvailableTimestamps cfg r now radarId res maxResults force st) = Inr x"
              "\<not> listFromCache x"
    and now: "now \<noteq> 0"
  shows "lastTimestampRefresh
           (metaAfter (listAvailableTimestamps cfg r now radarId res maxResults force st)) radarId
           = Some now
       \<and> nextRefreshIn x = of_int (TIMESTAMP_REFRESH_INTERVAL cfg) / 1000
       \<and> (\<forall>t. canRefreshTimestamps cfg
                 (metaAfter (listAvailableTimestamps cfg r now radarId res maxResults force st))
                 t radarId
               \<longleftrightarrow> t - now \<ge> TIMESTAMP_REFRESH_INTERVAL cfg)
       \<and> (\<forall>secs. 0 \<le> secs \<and> TIMESTAMP_REFRESH_INTERVAL cfg = secs * 1000 \<longrightarrow>
             getTimeUntilNextRefresh cfg
               (metaAfter (listAvailableTimestamps cfg r now radarId res maxResults force st))
               now radarId = secs)"
proof -
  from listing_success [OF ok] obtain key v where
    after: "metaAfter (listAvailableTimestamps cfg r now radarId res maxResults force st) =
              updateTimestampRefreshTime (nc_set cfg st now key v) now radarId"
    and nx: "nextRefreshIn x = of_int (TIMESTAMP_REFRESH_INTERVAL cfg) / 1000"
    by auto
  let ?st = "updateTimestampRefreshTime (nc_set cfg st now key v) now radarId"
  have last: "lastTimestampRefresh ?st radarId = Some now"
    by (rule lastRefresh_after_update)
  have can: "canRefreshTimestamps cfg ?st t radarId \<longleftrightarrow> t - now \<ge> TIMESTAMP_REFRESH_INTERVAL cfg"
    for t
    using last now unfolding canRefreshTimestamps_def by (simp add: Let_def)
  have wait: "getTimeUntilNextRefresh cfg ?st now radarId = secs"
    if "0 \<le> secs \<and> TIMESTAMP_REFRESH_INTERVAL cfg = secs * 1000" for secs
    using last now that unfolding getTimeUntilNextRefresh_def by (simp add: Let_def)
  from last nx can wait show ?thesis unfolding after by blast
qed

theorem C10_witness:
  "lastTimestampRefresh
     (metaAfter (listAvailableTimestamps default_config ex_remote 1729693860000 ''IDR023'' 64 20
        True empty_meta)) ''IDR023'' = Some 1729693860000
   \<and> \<not> canRefreshTimestamps default_config
        (metaAfter (listAvailableTimestamps default_config ex_remote 1729693860000 ''IDR023'' 64 20
           True empty_meta)) (1729693860000 + 599999) ''IDR023''
   \<and> canRefreshTimestamps default_config
        (metaAfter (listAvailableTimestamps default_config ex_remote 1729693860000 ''IDR023'' 64 20
           True empty_meta)) (1729693860000 + 600000) ''IDR023''
   \<and> getTimeUntilNextRefresh default_config
        (metaAfter (listAvailableTimestamps default_config ex_remote 1729693860000 ''IDR023'' 64 20
           True empty_meta)) 1729693860000 ''IDR023'' = 600"
proof -
  have first: "listReply (listAvailableTimestamps default_config ex_remote 1729693860000 ''IDR023''
                 64 20 True empty_meta)
               = Inr \<lparr> timestamps = [''202410231430''], listFromCache = False,
                       nextRefreshIn = 600, rateLimited = None \<rparr>"
    by (simp add: ex_first_listing)
  have fresh: "\<not> listFromCache \<lparr> timestamps = [''202410231430''], listFromCache = False,
                       nextRefreshIn = 600, rateLimited = None \<rparr>"
    by simp
  have t0: "(1729693860000::int) \<noteq> 0" by simp
  have iv: "(0::int) \<le> 600 \<and> TIMESTAMP_REFRESH_INTERVAL default_config = 600 * 1000"
    by (simp add: default_config_simps)
  from C10_successful_listing_restarts_interval [OF first fresh t0] iv
  show ?thesis by (simp add: default_config_simps)
qed

end
